theory Spec2Isabelle
  imports Complex_Main
begin

section \<open>Common vocabulary of the scrapers\<close>

text \<open>
  The data-collection scripts are sequences of effects: log lines, random draws, calls into
  the browser driver or the HTTP library, and one CSV write. A run is modelled as a pure
  function from the answers of the outside world (an environment record) and the file store
  before the run to the way the function ends, the trace of effects in program order, and
  the file store after the run.
\<close>

datatype level = INFO | WARNING | ERROR

text \<open>
  Exceptions. In selenium \<^verbatim>\<open>TimeoutException\<close> is a subclass of
  \<^verbatim>\<open>WebDriverException\<close>; \<open>RequestException\<close> is the base class of the
  exceptions of \<^verbatim>\<open>requests\<close>; everything else that derives from
  \<^verbatim>\<open>Exception\<close> is \<open>OtherException\<close>.
\<close>

datatype exn =
    WebDriverException string
  | TimeoutException string
  | RequestException string
  | OtherException string

fun is_WebDriverException :: "exn \<Rightarrow> bool" where
  "is_WebDriverException (WebDriverException _) = True"
| "is_WebDriverException (TimeoutException _) = True"
| "is_WebDriverException _ = False"

fun is_TimeoutException :: "exn \<Rightarrow> bool" where
  "is_TimeoutException (TimeoutException _) = True"
| "is_TimeoutException _ = False"

fun is_RequestException :: "exn \<Rightarrow> bool" where
  "is_RequestException (RequestException _) = True"
| "is_RequestException _ = False"

fun str_exn :: "exn \<Rightarrow> string" where
  "str_exn (WebDriverException m) = m"
| "str_exn (TimeoutException m) = m"
| "str_exn (RequestException m) = m"
| "str_exn (OtherException m) = m"

text \<open>The log messages of the four scripts, one constructor per format string.\<close>

datatype msg =
    Scraping string
  | ChromeDriverNotFound
  | PageLoaded nat nat
  | PageTitle string
  | NoGameElements
  | NoGameElementsRetry nat
  | ErrorProcessingGame string
  | NoGameData
  | SavedTo string
  | WebDriverErrorRetry nat string
  | ErrorOccurred string
  | ErrorClosingDriver string
  | ChartNotFound
  | PageSourceHeading
  | PageSourcePrefix string
  | TableNotFoundRetry nat
  | SkippingRow "string list"
  | ErrorProcessingRow string
  | NoNintendoGameData
  | SalesTableNotFound
  | NoNintendoConsoleData
  | ScrapingOpenCritic
  | FoundGames nat
  | ProcessedGame string
  | ErrorProcessingNamedGame string string
  | ErrorMakingRequest string

text \<open>
  The three places where the selenium scrapers sleep: before each attempt
  (\<^verbatim>\<open>random.uniform(2, 5)\<close>), after \<^verbatim>\<open>driver.get\<close>
  (\<^verbatim>\<open>random.uniform(3, 7)\<close>) and in the handler of a WebDriver error before the
  next attempt (\<^verbatim>\<open>random.uniform(3, 7)\<close>); and the pause between the detail
  requests of the OpenCritic scraper (\<^verbatim>\<open>random.uniform(0.5, 1.5)\<close>).
\<close>

datatype sleep_site = BeforeAttempt | AfterGet | BeforeRetry | BetweenRequests

text \<open>An ordered dictionary with string keys and values, and a CSV file as its rows.\<close>

type_synonym dict = "(string \<times> string) list"
type_synonym csv = "string list list"
type_synonym files = "string \<rightharpoonup> csv"

datatype event =
    Log level msg
  | RandomChoice string
  | StartChrome string
  | CdpUserAgentOverride string string string
  | CdpAddScript
  | CdpExtraHeaders
  | Sleep sleep_site rat
  | Get string
  | HttpGet string
  | WriteCsv string csv
  | Quit

text \<open>How a Python function ends: it returns (always \<^verbatim>\<open>None\<close> here) or an exception
  leaves it.\<close>

datatype result = Returned | Propagated exn

subsection \<open>Strings\<close>

text \<open>\<^verbatim>\<open>s.startswith(p)\<close> and \<^verbatim>\<open>sub in s\<close> on strings.\<close>

fun startswith :: "string \<Rightarrow> string \<Rightarrow> bool" where
  "startswith s [] = True"
| "startswith [] (c # p) = False"
| "startswith (d # s) (c # p) = (d = c \<and> startswith s p)"

fun str_in :: "string \<Rightarrow> string \<Rightarrow> bool" where
  "str_in sub [] = (sub = [])"
| "str_in sub (c # s) = (startswith (c # s) sub \<or> str_in sub s)"

text \<open>
  \<^verbatim>\<open>repr(s)\<close> of a string that holds no quote, no backslash and only printable
  characters: the string between single quotes. It is what \<^verbatim>\<open>str\<close> of a
  \<^verbatim>\<open>KeyError\<close> prints for the missing key.
\<close>

definition quoted :: "string \<Rightarrow> string" where
  "quoted s = CHR 0x27 # s @ [CHR 0x27]"

subsection \<open>\<^verbatim>\<open>csv.DictWriter\<close>\<close>

text \<open>
  \<^verbatim>\<open>DictWriter(f, fieldnames=data[0].keys())\<close> with the default
  \<^verbatim>\<open>extrasaction='raise'\<close> and \<^verbatim>\<open>restval=''\<close>: a row with a key outside
  the field names raises \<^verbatim>\<open>ValueError\<close>, a missing key is written as the empty string.
  The message of the \<^verbatim>\<open>ValueError\<close> lists the keys that are not field names (Python
  lists them in the iteration order of a set; the model lists them in the order of the row).
  The file is kept as its lines, each the list of its fields; the quoting and line ends of
  the \<^verbatim>\<open>csv\<close> module are below the model.
\<close>

definition keys :: "dict \<Rightarrow> string list" where
  "keys d = map fst d"

fun join :: "string \<Rightarrow> string list \<Rightarrow> string" where
  "join sep [] = []"
| "join sep [s] = s"
| "join sep (s # t # ss) = s @ sep @ join sep (t # ss)"

definition dict_to_list :: "string list \<Rightarrow> dict \<Rightarrow> exn + string list" where
  "dict_to_list fieldnames rowdict =
     (let wrong_fields = filter (\<lambda>k. k \<notin> set fieldnames) (keys rowdict) in
      if wrong_fields \<noteq> []
      then Inl (OtherException
                 (''dict contains fields not in fieldnames: '' @ join '', '' (map quoted wrong_fields)))
      else Inr (map (\<lambda>k. case map_of rowdict k of Some v \<Rightarrow> v | None \<Rightarrow> []) fieldnames))"

text \<open>
  \<^verbatim>\<open>writerows\<close> writes the rows one by one: when a row raises, the rows before it
  have been written. The result is the lines written and the exception, if any.
\<close>

fun writerows :: "string list \<Rightarrow> dict list \<Rightarrow> csv \<times> exn option" where
  "writerows fieldnames [] = ([], None)"
| "writerows fieldnames (r # rs) =
     (case dict_to_list fieldnames r of
        Inl e \<Rightarrow> ([], Some e)
      | Inr line \<Rightarrow> (let (ls, x) = writerows fieldnames rs in (line # ls, x)))"

text \<open>
  What the file system answers to the block that saves the records (\<open>None\<close>: nothing
  fails). \<open>OpenRaises m\<close>: \<^verbatim>\<open>os.makedirs\<close> or \<^verbatim>\<open>open\<close> raises an
  \<^verbatim>\<open>OSError\<close> with message \<open>m\<close>, and the store is left as it was.
  \<open>WriteRaises n m\<close>: the file is opened, and the write of line number \<open>n\<close> (the
  header is line 0) raises an exception with message \<open>m\<close>, an \<^verbatim>\<open>OSError\<close> of the
  device or the \<^verbatim>\<open>UnicodeEncodeError\<close> of a line that \<open>utf-8\<close> cannot encode; the
  \<^verbatim>\<open>with\<close> statement closes the file, which then holds the \<open>n\<close> lines written
  before (the model keeps whole lines). Neither exception is a
  \<^verbatim>\<open>WebDriverException\<close> or a \<^verbatim>\<open>RequestException\<close>.
\<close>

datatype io_fault = OpenRaises string | WriteRaises nat string

definition write_fault :: "io_fault option \<Rightarrow> nat \<Rightarrow> (nat \<times> string) option" where
  "write_fault io_error len =
     (case io_error of
        Some (WriteRaises n m) \<Rightarrow> if n < len then Some (n, m) else None
      | _ \<Rightarrow> None)"

text \<open>
  The block that every scraper runs once its list \<open>data\<close> is not empty:
  \<^verbatim>\<open>os.makedirs\<close>, \<^verbatim>\<open>open(OUTPUT_FILE, 'w')\<close>, \<^verbatim>\<open>writeheader\<close>,
  \<^verbatim>\<open>writerows\<close> and the final info line. \<^verbatim>\<open>open\<close> creates the file or
  empties the one that is there, before anything is written. The event \<open>WriteCsv path f\<close>
  says that the file at \<open>path\<close> was opened for writing and holds the lines \<open>f\<close> when it
  is closed. The block is only entered with \<open>data \<noteq> []\<close>; on the empty list
  \<^verbatim>\<open>data[0]\<close> raises \<^verbatim>\<open>IndexError\<close> after the file was opened.
\<close>

definition save_csv ::
  "string \<Rightarrow> io_fault option \<Rightarrow> dict list \<Rightarrow> files \<Rightarrow> (exn option \<times> event list \<times> files)" where
  "save_csv path io_error data fs =
     (case io_error of
        Some (OpenRaises m) \<Rightarrow> (Some (OtherException m), [], fs)
      | _ \<Rightarrow>
         (case data of
            [] \<Rightarrow> (Some (OtherException ''list index out of range''), [WriteCsv path []], fs(path \<mapsto> []))
          | first # _ \<Rightarrow>
             (let (ls, row_error) = writerows (keys first) data;
                  lines = keys first # ls
              in case write_fault io_error (length lines) of
                   Some (n, m) \<Rightarrow>
                     (Some (OtherException m), [WriteCsv path (take n lines)], fs(path \<mapsto> take n lines))
                 | None \<Rightarrow>
                    (case row_error of
                       Some e \<Rightarrow> (Some e, [WriteCsv path lines], fs(path \<mapsto> lines))
                     | None \<Rightarrow>
                        (None, [WriteCsv path lines, Log INFO (SavedTo path)], fs(path \<mapsto> lines))))))"

section \<open>\<^verbatim>\<open>vgchartz_scraper.py\<close>: console sales\<close>

definition CONSOLE_URL :: string where
  "CONSOLE_URL = ''https://www.vgchartz.com/analysis/platform_totals/''"

definition CONSOLE_OUTPUT_FILE :: string where
  "CONSOLE_OUTPUT_FILE = ''data/raw/nintendo_console_sales.csv''"

definition NINTENDO_CONSOLES :: "string list" where
  "NINTENDO_CONSOLES =
     [''Switch'', ''Wii'', ''Wii U'', ''3DS'', ''DS'', ''GameCube'', ''N64'', ''SNES'', ''NES'',
      ''Game Boy'', ''Game Boy Advance'', ''Virtual Boy'']"

text \<open>
  What the outside world answers to the console scraper: \<^verbatim>\<open>requests.get\<close> raises or
  gives a page; the page has no table of class \<open>chart\<close> (\<open>None\<close>) or has one, given as
  the list of its \<^verbatim>\<open>tr\<close> elements, each the list of the stripped texts of its
  \<^verbatim>\<open>td\<close> cells.
\<close>

record console_env =
  console_response :: "exn + string list list option"
  console_io_error :: "io_fault option"

definition console_record :: "string list \<Rightarrow> dict" where
  "console_record cols =
     [(''Console'', cols ! 1),
      (''North America (M)'', cols ! 2),
      (''Europe (M)'', cols ! 3),
      (''Japan (M)'', cols ! 4),
      (''Rest of World (M)'', cols ! 5),
      (''Total Sales (M)'', cols ! 6)]"

text \<open>The row loop; the state is the list \<open>data\<close> and the log lines written so far.\<close>

fun console_rows :: "string list list \<Rightarrow> dict list \<times> event list \<Rightarrow> dict list \<times> event list" where
  "console_rows [] st = st"
| "console_rows (cols # rows) (data, tr) =
     console_rows rows
       (if cols = [] \<or> length cols < 7 then (data, tr @ [Log WARNING (SkippingRow cols)])
        else if list_ex (\<lambda>console. str_in console (cols ! 1)) NINTENDO_CONSOLES
        then (data @ [console_record cols], tr)
        else (data, tr))"

definition scrape_vgchartz_console_sales :: "console_env \<Rightarrow> files \<Rightarrow> result \<times> event list \<times> files" where
  "scrape_vgchartz_console_sales env fs =
     (let tr0 = [Log INFO (Scraping CONSOLE_URL), HttpGet CONSOLE_URL] in
      case console_response env of
        Inl e \<Rightarrow> (Propagated e, tr0, fs)
      | Inr None \<Rightarrow> (Returned, tr0 @ [Log ERROR SalesTableNotFound], fs)
      | Inr (Some trs) \<Rightarrow>
         (let (data, tr1) = console_rows (drop 1 trs) ([], tr0) in
          if data = [] then (Returned, tr1 @ [Log WARNING NoNintendoConsoleData], fs)
          else (case save_csv CONSOLE_OUTPUT_FILE (console_io_error env) data fs of
                  (Some e, tr2, fs') \<Rightarrow> (Propagated e, tr1 @ tr2, fs')
                | (None, tr2, fs') \<Rightarrow> (Returned, tr1 @ tr2, fs'))))"

section \<open>The selenium scrapers: shared parts\<close>

text \<open>
  \<^verbatim>\<open>get_random_user_agent\<close>: \<^verbatim>\<open>random.choice\<close> over the four candidates.
  The argument is the number the generator draws; \<^verbatim>\<open>random.choice\<close> always indexes
  inside the list.
\<close>

definition user_agents :: "string list" where
  "user_agents =
     [''Mozilla/5.0 (Windows NT 10.0; Win64; x64) AppleWebKit/537.36 (KHTML, like Gecko) Chrome/137.0.7151.68 Safari/537.36'',
      ''Mozilla/5.0 (Windows NT 10.0; Win64; x64) AppleWebKit/537.36 (KHTML, like Gecko) Chrome/136.0.0.0 Safari/537.36'',
      ''Mozilla/5.0 (Macintosh; Intel Mac OS X 10_15_7) AppleWebKit/537.36 (KHTML, like Gecko) Chrome/137.0.7151.68 Safari/537.36'',
      ''Mozilla/5.0 (Windows NT 10.0; Win64; x64; rv:109.0) Gecko/20100101 Firefox/115.0'']"

definition get_random_user_agent :: "nat \<Rightarrow> string \<times> event list" where
  "get_random_user_agent draw =
     (let ua = user_agents ! (draw mod length user_agents) in (ua, [RandomChoice ua]))"

text \<open>
  \<^verbatim>\<open>random.uniform(a, b)\<close> is \<^verbatim>\<open>a + (b - a) * random()\<close>, where
  \<^verbatim>\<open>random()\<close> lies in \<open>[0, 1)\<close>. The third argument is the value of
  \<^verbatim>\<open>random()\<close>; durations are exact rationals (seconds).
\<close>

definition uniform :: "rat \<Rightarrow> rat \<Rightarrow> rat \<Rightarrow> rat" where
  "uniform a b u = a + (b - a) * u"

text \<open>
  The answer of the browser to one attempt of the retry loop: \<^verbatim>\<open>driver.get\<close> raises;
  or the page loads and the wait for the readiness marker (or the reading of the page after
  it) raises; or the marker is there, with the page title and what the scraper reads next.
\<close>

datatype 'p nav = GetRaises exn | WaitRaises exn | Ready string 'p

text \<open>
  The outside world of one run of a selenium scraper. \<open>choice_setup\<close> and \<open>choice_cdp\<close>
  are the two draws of \<^verbatim>\<open>random.choice\<close>; \<open>cdp_error k\<close> is the answer to the
  \<open>k\<close>-th \<^verbatim>\<open>execute_cdp_cmd\<close>; \<open>random_before\<close>, \<open>random_after_get\<close> and
  \<open>random_retry\<close> give, per attempt index, the value of \<^verbatim>\<open>random()\<close> behind the
  three sleeps; \<open>navigation\<close> gives the browser's answer per attempt index.
\<close>

record 'p selenium_env =
  choice_setup :: nat
  choice_cdp :: nat
  chromedriver_exists :: bool
  chrome_error :: "exn option"
  cdp_error :: "nat \<Rightarrow> exn option"
  random_before :: "nat \<Rightarrow> rat"
  random_after_get :: "nat \<Rightarrow> rat"
  random_retry :: "nat \<Rightarrow> rat"
  navigation :: "nat \<Rightarrow> 'p nav"
  io_error :: "io_fault option"
  quit_error :: "exn option"

text \<open>
  \<^verbatim>\<open>setup_driver\<close>: the user agent is drawn while the options are built, before the
  check for the binary. The result is \<open>Inl e\<close> when \<^verbatim>\<open>webdriver.Chrome\<close> raises,
  \<open>Inr False\<close> for \<^verbatim>\<open>None\<close> and \<open>Inr True\<close> for a driver.
\<close>

definition setup_driver :: "'p selenium_env \<Rightarrow> (exn + bool) \<times> event list" where
  "setup_driver env =
     (let (ua, tr) = get_random_user_agent (choice_setup env) in
      if \<not> chromedriver_exists env then (Inr False, tr @ [Log ERROR ChromeDriverNotFound])
      else (case chrome_error env of
              Some e \<Rightarrow> (Inl e, tr)
            | None \<Rightarrow> (Inr True, tr @ [StartChrome ua])))"

text \<open>The three CDP commands at the start of the \<^verbatim>\<open>try\<close> block.\<close>

definition cdp_commands :: "'p selenium_env \<Rightarrow> exn option \<times> event list" where
  "cdp_commands env =
     (let (ua, tr) = get_random_user_agent (choice_cdp env) in
      case cdp_error env 0 of
        Some e \<Rightarrow> (Some e, tr)
      | None \<Rightarrow>
         (case cdp_error env 1 of
            Some e \<Rightarrow> (Some e, tr @ [CdpUserAgentOverride ua ''Windows'' ''en-US,en;q=0.9''])
          | None \<Rightarrow>
             (case cdp_error env 2 of
                Some e \<Rightarrow> (Some e, tr @ [CdpUserAgentOverride ua ''Windows'' ''en-US,en;q=0.9'', CdpAddScript])
              | None \<Rightarrow> (None, tr @ [CdpUserAgentOverride ua ''Windows'' ''en-US,en;q=0.9'', CdpAddScript,
                                     CdpExtraHeaders]))))"

text \<open>How one pass through the body of a \<^verbatim>\<open>for\<close> loop ends.\<close>

datatype 'a signal = Next | Break 'a | Return | Raise exn

definition max_retries :: nat where
  "max_retries = 3"

text \<open>
  The handler \<^verbatim>\<open>except WebDriverException as e\<close> around the body of the retry loop;
  an exception of another class passes through it.
\<close>

definition on_attempt_exn :: "'p selenium_env \<Rightarrow> nat \<Rightarrow> exn \<Rightarrow> 'a signal \<times> event list" where
  "on_attempt_exn env attempt e =
     (if is_WebDriverException e then
        (if attempt = max_retries - 1 then (Raise e, [])
         else (Next, [Log WARNING (WebDriverErrorRetry (attempt + 1) (str_exn e)),
                      Sleep BeforeRetry (uniform 3 7 (random_retry env attempt))]))
      else (Raise e, []))"

text \<open>The \<^verbatim>\<open>finally\<close> block: \<^verbatim>\<open>driver.quit()\<close> inside its own
  \<^verbatim>\<open>try\<close>.\<close>

definition quit_driver :: "'p selenium_env \<Rightarrow> event list" where
  "quit_driver env =
     (case quit_error env of
        None \<Rightarrow> [Quit]
      | Some e \<Rightarrow> [Quit, Log WARNING (ErrorClosingDriver (str_exn e))])"

section \<open>\<^verbatim>\<open>metacritic_scraper.py\<close>\<close>

definition METACRITIC_URL :: string where
  "METACRITIC_URL = ''https://www.metacritic.com/browse/games/score/metascore/all/switch/filtered?sort=desc''"

definition SCORES_OUTPUT_FILE :: string where
  "SCORES_OUTPUT_FILE = ''data/raw/nintendo_game_scores.csv''"

text \<open>
  One element of class \<open>c-productListItem\<close>: its title, score and release date (stripped),
  or the exception that reading one of them raises.
\<close>

datatype game_element = GameElement string string string | BrokenElement exn

fun mc_games :: "game_element list \<Rightarrow> dict list \<times> event list \<Rightarrow> dict list \<times> event list" where
  "mc_games [] st = st"
| "mc_games (GameElement title score release_date # games) (data, tr) =
     mc_games games
       (data @ [[(''Game'', title), (''Metascore'', score), (''Release Date'', release_date)]], tr)"
| "mc_games (BrokenElement e # games) (data, tr) =
     mc_games games (data, tr @ [Log WARNING (ErrorProcessingGame (str_exn e))])"

text \<open>The body of the retry loop for one value of \<open>attempt\<close>.\<close>

definition mc_attempt ::
  "game_element list selenium_env \<Rightarrow> nat \<Rightarrow> files \<Rightarrow> unit signal \<times> event list \<times> files" where
  "mc_attempt env attempt fs =
     (let tr0 = [Sleep BeforeAttempt (uniform 2 5 (random_before env attempt)), Get METACRITIC_URL];
          tr1 = tr0 @ [Log INFO (PageLoaded (attempt + 1) max_retries),
                       Sleep AfterGet (uniform 3 7 (random_after_get env attempt))]
      in case navigation env attempt of
           GetRaises e \<Rightarrow> (let (s, tr) = on_attempt_exn env attempt e in (s, tr0 @ tr, fs))
         | WaitRaises e \<Rightarrow> (let (s, tr) = on_attempt_exn env attempt e in (s, tr1 @ tr, fs))
         | Ready title game_elements \<Rightarrow>
            (let tr2 = tr1 @ [Log INFO (PageTitle title)] in
             if game_elements = [] then
               (if attempt = max_retries - 1 then (Return, tr2 @ [Log ERROR NoGameElements], fs)
                else (Next, tr2 @ [Log WARNING (NoGameElementsRetry (attempt + 1))], fs))
             else
               (let (data, tr3) = mc_games game_elements ([], tr2) in
                if data = [] then (Return, tr3 @ [Log WARNING NoGameData], fs)
                else (case save_csv SCORES_OUTPUT_FILE (io_error env) data fs of
                        (Some e, tr4, fs') \<Rightarrow>
                          (let (s, tr) = on_attempt_exn env attempt e in (s, tr3 @ tr4 @ tr, fs'))
                      | (None, tr4, fs') \<Rightarrow> (Break (), tr3 @ tr4, fs')))))"

text \<open>\<^verbatim>\<open>for attempt in range(max_retries)\<close>, over the list of the indices left.\<close>

fun mc_loop ::
  "game_element list selenium_env \<Rightarrow> nat list \<Rightarrow> files \<Rightarrow> unit signal \<times> event list \<times> files" where
  "mc_loop env [] fs = (Next, [], fs)"
| "mc_loop env (attempt # rest) fs =
     (case mc_attempt env attempt fs of
        (Next, tr, fs') \<Rightarrow> (let (s, tr', fs'') = mc_loop env rest fs' in (s, tr @ tr', fs''))
      | (s, tr, fs') \<Rightarrow> (s, tr, fs'))"

text \<open>The \<^verbatim>\<open>try\<close> block with its \<^verbatim>\<open>except Exception\<close> handler.\<close>

definition mc_try :: "game_element list selenium_env \<Rightarrow> files \<Rightarrow> event list \<times> files" where
  "mc_try env fs =
     (case cdp_commands env of
        (Some e, tr) \<Rightarrow> (tr @ [Log ERROR (ErrorOccurred (str_exn e))], fs)
      | (None, tr) \<Rightarrow>
         (case mc_loop env [0..<max_retries] fs of
            (Raise e, tr', fs') \<Rightarrow> (tr @ tr' @ [Log ERROR (ErrorOccurred (str_exn e))], fs')
          | (_, tr', fs') \<Rightarrow> (tr @ tr', fs')))"

definition scrape_metacritic_scores ::
  "game_element list selenium_env \<Rightarrow> files \<Rightarrow> result \<times> event list \<times> files" where
  "scrape_metacritic_scores env fs =
     (let tr0 = [Log INFO (Scraping METACRITIC_URL)] in
      case setup_driver env of
        (Inl e, tr) \<Rightarrow> (Propagated e, tr0 @ tr, fs)
      | (Inr False, tr) \<Rightarrow> (Returned, tr0 @ tr, fs)
      | (Inr True, tr) \<Rightarrow>
         (let (tr', fs') = mc_try env fs in (Returned, tr0 @ tr @ tr' @ quit_driver env, fs')))"

section \<open>\<^verbatim>\<open>vgchartz_game_scraper.py\<close>: game sales\<close>

definition VGCHARTZ_URL :: string where
  "VGCHARTZ_URL = ''https://www.vgchartz.com/games/games.php?console=Nintendo+Switch&region=All&order=Sales&showtotalsales=1&showpalsales=0&showjapansales=0&showothersales=0&showpublisher=0&showdeveloper=0&showreleasedate=1&showlastupdate=1&showvgchartzscore=1&showcriticscore=1&showuserscore=1&showshipped=1&results=200''"

definition SALES_OUTPUT_FILE :: string where
  "SALES_OUTPUT_FILE = ''data/raw/nintendo_game_sales.csv''"

text \<open>
  One \<^verbatim>\<open>tr\<close> of the table: the stripped texts of its \<^verbatim>\<open>td\<close> cells, or the
  exception that reading them raises. A table is what \<^verbatim>\<open>table.find_elements\<close> gives:
  an exception or all its rows, the header row first.
\<close>

datatype row_read = Cells "string list" | RowRaises exn

type_synonym table = "exn + row_read list"

text \<open>
  After the wait for \<^verbatim>\<open>body\<close> succeeded: the answer to the wait for the element of
  class \<open>chart\<close>, and the page source.
\<close>

datatype chart_probe = ChartRaises exn | ChartFound table

record vg_page =
  chart :: chart_probe
  page_source :: string

definition game_record :: "string list \<Rightarrow> dict" where
  "game_record cols =
     [(''Game'', cols ! 1),
      (''Platform'', cols ! 2),
      (''Publisher'', cols ! 3),
      (''Developer'', cols ! 4),
      (''Total Sales (M)'', cols ! 5),
      (''Release Date'', cols ! 6)]"

fun vg_rows :: "row_read list \<Rightarrow> dict list \<times> event list \<Rightarrow> dict list \<times> event list" where
  "vg_rows [] st = st"
| "vg_rows (Cells cols # rows) (data, tr) =
     vg_rows rows
       (if cols = [] \<or> length cols < 7 then (data, tr @ [Log WARNING (SkippingRow cols)])
        else (data @ [game_record cols], tr))"
| "vg_rows (RowRaises e # rows) (data, tr) =
     vg_rows rows (data, tr @ [Log WARNING (ErrorProcessingRow (str_exn e))])"

definition vg_attempt :: "vg_page selenium_env \<Rightarrow> nat \<Rightarrow> table signal \<times> event list" where
  "vg_attempt env attempt =
     (let tr0 = [Sleep BeforeAttempt (uniform 2 5 (random_before env attempt)), Get VGCHARTZ_URL];
          tr1 = tr0 @ [Log INFO (PageLoaded (attempt + 1) max_retries),
                       Sleep AfterGet (uniform 3 7 (random_after_get env attempt))]
      in case navigation env attempt of
           GetRaises e \<Rightarrow> (let (s, tr) = on_attempt_exn env attempt e in (s, tr0 @ tr))
         | WaitRaises e \<Rightarrow> (let (s, tr) = on_attempt_exn env attempt e in (s, tr1 @ tr))
         | Ready title page \<Rightarrow>
            (let tr2 = tr1 @ [Log INFO (PageTitle title)] in
             case chart page of
               ChartFound t \<Rightarrow> (Break t, tr2)
             | ChartRaises e \<Rightarrow>
                (if is_TimeoutException e then
                   (if attempt = max_retries - 1
                    then (Return, tr2 @ [Log ERROR ChartNotFound, Log INFO PageSourceHeading,
                                         Log INFO (PageSourcePrefix (take 1000 (page_source page)))])
                    else (Next, tr2 @ [Log WARNING (TableNotFoundRetry (attempt + 1))]))
                 else (let (s, tr) = on_attempt_exn env attempt e in (s, tr2 @ tr)))))"

fun vg_loop :: "vg_page selenium_env \<Rightarrow> nat list \<Rightarrow> table signal \<times> event list" where
  "vg_loop env [] = (Next, [])"
| "vg_loop env (attempt # rest) =
     (case vg_attempt env attempt of
        (Next, tr) \<Rightarrow> (let (s, tr') = vg_loop env rest in (s, tr @ tr'))
      | (s, tr) \<Rightarrow> (s, tr))"

text \<open>
  The statements after the loop, still inside the \<^verbatim>\<open>try\<close> block. They are reached
  with \<open>table\<close> bound by the \<^verbatim>\<open>break\<close>; if the loop ended without it the name is
  unbound and reading it raises.
\<close>

definition vg_after_loop ::
  "vg_page selenium_env \<Rightarrow> table \<Rightarrow> files \<Rightarrow> exn option \<times> event list \<times> files" where
  "vg_after_loop env t fs =
     (case t of
        Inl e \<Rightarrow> (Some e, [], fs)
      | Inr trs \<Rightarrow>
         (let (data, tr) = vg_rows (drop 1 trs) ([], []) in
          if data = [] then (None, tr @ [Log WARNING NoNintendoGameData], fs)
          else (case save_csv SALES_OUTPUT_FILE (io_error env) data fs of
                  (r, tr', fs') \<Rightarrow> (r, tr @ tr', fs'))))"

text \<open>
  The \<^verbatim>\<open>try\<close> block with its \<^verbatim>\<open>except Exception\<close> handler. A loop that ends
  without \<^verbatim>\<open>break\<close>, \<^verbatim>\<open>return\<close> or an exception leaves \<open>table\<close> unbound
  (the message of the \<^verbatim>\<open>UnboundLocalError\<close> is the one of CPython 3.11); the last
  attempt never ends that way.
\<close>

definition vg_try :: "vg_page selenium_env \<Rightarrow> files \<Rightarrow> event list \<times> files" where
  "vg_try env fs =
     (case cdp_commands env of
        (Some e, tr) \<Rightarrow> (tr @ [Log ERROR (ErrorOccurred (str_exn e))], fs)
      | (None, tr) \<Rightarrow>
         (case vg_loop env [0..<max_retries] of
            (Raise e, tr') \<Rightarrow> (tr @ tr' @ [Log ERROR (ErrorOccurred (str_exn e))], fs)
          | (Return, tr') \<Rightarrow> (tr @ tr', fs)
          | (Next, tr') \<Rightarrow>
              (tr @ tr' @ [Log ERROR (ErrorOccurred
                 (''cannot access local variable '' @ quoted ''table''
                    @ '' where it is not associated with a value''))], fs)
          | (Break t, tr') \<Rightarrow>
              (case vg_after_loop env t fs of
                 (Some e, tr'', fs') \<Rightarrow> (tr @ tr' @ tr'' @ [Log ERROR (ErrorOccurred (str_exn e))], fs')
               | (None, tr'', fs') \<Rightarrow> (tr @ tr' @ tr'', fs'))))"

definition scrape_vgchartz_game_sales ::
  "vg_page selenium_env \<Rightarrow> files \<Rightarrow> result \<times> event list \<times> files" where
  "scrape_vgchartz_game_sales env fs =
     (let tr0 = [Log INFO (Scraping VGCHARTZ_URL)] in
      case setup_driver env of
        (Inl e, tr) \<Rightarrow> (Propagated e, tr0 @ tr, fs)
      | (Inr False, tr) \<Rightarrow> (Returned, tr0 @ tr, fs)
      | (Inr True, tr) \<Rightarrow>
         (let (tr', fs') = vg_try env fs in (Returned, tr0 @ tr @ tr' @ quit_driver env, fs')))"

section \<open>\<^verbatim>\<open>opencritic_scraper.py\<close>\<close>

definition OPENCRITIC_API_URL :: string where
  "OPENCRITIC_API_URL = ''https://api.opencritic.com/api/game''"

text \<open>
  A calendar date, the part of a \<^verbatim>\<open>datetime\<close> that \<^verbatim>\<open>strftime('%Y-%m-%d')\<close>
  prints: year, month, day, with \<open>1 \<le> year \<le> 9999\<close>, \<open>1 \<le> month \<le> 12\<close> and
  \<open>1 \<le> day \<le> 31\<close>. \<^verbatim>\<open>datetime.fromisoformat\<close> belongs to the Python
  library, and which strings it accepts depends on the interpreter's version; it is a
  parameter of the model (\<open>None\<close>: it raises \<^verbatim>\<open>ValueError\<close>).
\<close>

type_synonym date = "nat \<times> nat \<times> nat"

definition digit :: "nat \<Rightarrow> char" where
  "digit n = ''0123456789'' ! (n mod 10)"

text \<open>A number in decimal, and \<^verbatim>\<open>str.zfill\<close>: zeros on the left up to a width.\<close>

fun decimal :: "nat \<Rightarrow> string" where
  "decimal n = (if n < 10 then [digit n] else decimal (n div 10) @ [digit n])"

declare decimal.simps [simp del]

definition zfill :: "nat \<Rightarrow> string \<Rightarrow> string" where
  "zfill width s = replicate (width - length s) (CHR ''0'') @ s"

text \<open>
  \<^verbatim>\<open>strftime('%Y-%m-%d')\<close> is the C library's: month and day in two digits,
  zero-filled, and the year in decimal. Whether a year below 1000 is zero-filled to four
  digits depends on the platform: CPython 3.11 on glibc prints the year 999 as \<open>999\<close>,
  other platforms print \<open>0999\<close>. \<open>pads_year\<close> is that property of the platform, a
  parameter of the model.
\<close>

definition strftime_Ymd :: "bool \<Rightarrow> date \<Rightarrow> string" where
  "strftime_Ymd pads_year dt =
     (case dt of (y, m, d) \<Rightarrow>
        (if pads_year then zfill 4 (decimal y) else decimal y)
        @ ''-'' @ zfill 2 (decimal m) @ ''-'' @ zfill 2 (decimal d))"

text \<open>\<^verbatim>\<open>release_date.replace('Z', '+00:00')\<close>: every \<open>Z\<close> is replaced.\<close>

definition replace_Z :: "string \<Rightarrow> string" where
  "replace_Z s = concat (map (\<lambda>c. if c = CHR ''Z'' then ''+00:00'' else [c]) s)"

text \<open>
  The JSON object of one game's detail request, as far as the scraper reads it; \<open>None\<close>
  is a missing key. \<open>topCriticScore\<close> is the number as \<^verbatim>\<open>csv\<close> prints it.
\<close>

record game_details =
  name :: "string option"
  topCriticScore :: "string option"
  firstReleaseDate :: "string option"

text \<open>
  One entry of the list request and the answers to its processing: the keys \<open>id\<close> and
  \<open>name\<close> of the list entry, the draws of \<^verbatim>\<open>random()\<close> and
  \<^verbatim>\<open>random.choice\<close>, and the detail request (it raises, or gives the object).
\<close>

record listed_game =
  game_id :: "string option"
  listed_name :: "string option"
  random_pause :: rat
  choice_detail :: nat
  detail_response :: "exn + game_details"

record opencritic_env =
  choice_list :: nat
  list_response :: "exn + listed_game list"
  opencritic_io_error :: "io_fault option"

text \<open>
  The conversion of the release date: skipped for the empty string; the bare
  \<^verbatim>\<open>except\<close> turns a failed parse into the empty string.
\<close>

definition convert_release_date :: "(string \<Rightarrow> date option) \<Rightarrow> bool \<Rightarrow> string \<Rightarrow> string" where
  "convert_release_date fromisoformat pads_year release_date =
     (if release_date \<noteq> [] then
        (case fromisoformat (replace_Z release_date) of
           Some dt \<Rightarrow> strftime_Ymd pads_year dt
         | None \<Rightarrow> [])
      else release_date)"

text \<open>
  The body of the loop over \<open>games\<close>, with its \<^verbatim>\<open>except Exception\<close> handler.
  A list entry without the key \<open>id\<close> raises \<^verbatim>\<open>KeyError('id')\<close>, whose
  \<^verbatim>\<open>str\<close> is the key between quotes.
\<close>

definition oc_game ::
  "(string \<Rightarrow> date option) \<Rightarrow> bool \<Rightarrow> listed_game \<Rightarrow> dict list \<times> event list
     \<Rightarrow> dict list \<times> event list" where
  "oc_game fromisoformat pads_year game st =
     (case st of (data, tr) \<Rightarrow>
      let unknown = (case listed_name game of Some n \<Rightarrow> n | None \<Rightarrow> ''unknown'') in
      case game_id game of
        None \<Rightarrow> (data, tr @ [Log WARNING (ErrorProcessingNamedGame unknown (quoted ''id''))])
      | Some gid \<Rightarrow>
         (let (ua, tr_ua) = get_random_user_agent (choice_detail game);
              tr1 = tr @ [Sleep BetweenRequests (uniform (1 / 2) (3 / 2) (random_pause game))] @ tr_ua
                       @ [HttpGet (OPENCRITIC_API_URL @ ''/'' @ gid)]
          in case detail_response game of
               Inl e \<Rightarrow> (data, tr1 @ [Log WARNING (ErrorProcessingNamedGame unknown (str_exn e))])
             | Inr details \<Rightarrow>
                (let title = (case name details of Some n \<Rightarrow> n | None \<Rightarrow> []);
                     score = (case topCriticScore details of Some n \<Rightarrow> n | None \<Rightarrow> ''0'');
                     release_date = (case firstReleaseDate details of Some n \<Rightarrow> n | None \<Rightarrow> [])
                 in (data @ [[(''Game'', title), (''OpenCritic Score'', score),
                              (''Release Date'',
                               convert_release_date fromisoformat pads_year release_date)]],
                     tr1 @ [Log INFO (ProcessedGame title)]))))"

fun oc_games ::
  "(string \<Rightarrow> date option) \<Rightarrow> bool \<Rightarrow> listed_game list \<Rightarrow> dict list \<times> event list
     \<Rightarrow> dict list \<times> event list" where
  "oc_games fromisoformat pads_year [] st = st"
| "oc_games fromisoformat pads_year (game # games) st =
     oc_games fromisoformat pads_year games (oc_game fromisoformat pads_year game st)"

text \<open>The two handlers of the outer \<^verbatim>\<open>try\<close>.\<close>

definition on_opencritic_exn :: "exn \<Rightarrow> event list" where
  "on_opencritic_exn e =
     (if is_RequestException e then [Log ERROR (ErrorMakingRequest (str_exn e))]
      else [Log ERROR (ErrorOccurred (str_exn e))])"

definition scrape_opencritic_scores ::
  "(string \<Rightarrow> date option) \<Rightarrow> bool \<Rightarrow> opencritic_env \<Rightarrow> files \<Rightarrow> result \<times> event list \<times> files" where
  "scrape_opencritic_scores fromisoformat pads_year env fs =
     (let (ua, tr_ua) = get_random_user_agent (choice_list env);
          tr0 = [Log INFO ScrapingOpenCritic] @ tr_ua @ [HttpGet OPENCRITIC_API_URL]
      in case list_response env of
           Inl e \<Rightarrow> (Returned, tr0 @ on_opencritic_exn e, fs)
         | Inr games \<Rightarrow>
            (let (data, tr1) =
                   oc_games fromisoformat pads_year games ([], tr0 @ [Log INFO (FoundGames (length games))])
             in if data = [] then (Returned, tr1 @ [Log WARNING NoGameData], fs)
                else (case save_csv SCORES_OUTPUT_FILE (opencritic_io_error env) data fs of
                        (Some e, tr2, fs') \<Rightarrow> (Returned, tr1 @ tr2 @ on_opencritic_exn e, fs')
                      | (None, tr2, fs') \<Rightarrow> (Returned, tr1 @ tr2, fs'))))"

section \<open>Vocabulary of the properties\<close>

subsection \<open>Reading a trace\<close>

fun is_Get :: "event \<Rightarrow> bool" where
  "is_Get (Get _) = True"
| "is_Get _ = False"

fun is_WriteCsv :: "event \<Rightarrow> bool" where
  "is_WriteCsv (WriteCsv _ _) = True"
| "is_WriteCsv _ = False"

fun is_RandomChoice :: "event \<Rightarrow> bool" where
  "is_RandomChoice (RandomChoice _) = True"
| "is_RandomChoice _ = False"

text \<open>The events that choose or install a client identity.\<close>

fun is_identity_event :: "event \<Rightarrow> bool" where
  "is_identity_event (RandomChoice _) = True"
| "is_identity_event (StartChrome _) = True"
| "is_identity_event (CdpUserAgentOverride _ _ _) = True"
| "is_identity_event _ = False"

fun is_error_log :: "event \<Rightarrow> bool" where
  "is_error_log (Log ERROR _) = True"
| "is_error_log _ = False"

text \<open>The number of navigation attempts of a run: its calls of \<^verbatim>\<open>driver.get\<close>.\<close>

definition navigation_attempts :: "event list \<Rightarrow> nat" where
  "navigation_attempts tr = length (filter is_Get tr)"

definition writes :: "event list \<Rightarrow> event list" where
  "writes tr = filter is_WriteCsv tr"

text \<open>
  ``Every navigation attempt after the first is preceded by a fresh call of the identity
  provider'': scanning the trace, the flag records whether \<^verbatim>\<open>random.choice\<close> ran
  since the last \<^verbatim>\<open>driver.get\<close>.
\<close>

fun rechosen :: "bool \<Rightarrow> event list \<Rightarrow> bool" where
  "rechosen fresh [] = True"
| "rechosen fresh (Get u # tr) = (fresh \<and> rechosen False tr)"
| "rechosen fresh (RandomChoice ua # tr) = rechosen True tr"
| "rechosen fresh (e # tr) = rechosen fresh tr"

text \<open>
  The delays slept between the start of the run, or a failed attempt, and the next
  navigation: the sleep before each attempt and the sleep of the retry handler. The sleep
  after \<^verbatim>\<open>driver.get\<close> lies inside an attempt.
\<close>

fun inter_attempt_delays :: "event list \<Rightarrow> rat list" where
  "inter_attempt_delays [] = []"
| "inter_attempt_delays (Sleep BeforeAttempt d # tr) = d # inter_attempt_delays tr"
| "inter_attempt_delays (Sleep BeforeRetry d # tr) = d # inter_attempt_delays tr"
| "inter_attempt_delays (e # tr) = inter_attempt_delays tr"

text \<open>The bounds of each sleep as the code draws it.\<close>

fun sleep_within :: "event \<Rightarrow> bool" where
  "sleep_within (Sleep BeforeAttempt d) = (2 \<le> d \<and> d \<le> 5)"
| "sleep_within (Sleep AfterGet d) = (3 \<le> d \<and> d \<le> 7)"
| "sleep_within (Sleep BeforeRetry d) = (3 \<le> d \<and> d \<le> 7)"
| "sleep_within (Sleep BetweenRequests d) = (1 / 2 \<le> d \<and> d \<le> 3 / 2)"
| "sleep_within _ = True"

text \<open>The values of \<^verbatim>\<open>random()\<close> lie in \<open>[0, 1)\<close>.\<close>

definition unit_draws :: "'p selenium_env \<Rightarrow> bool" where
  "unit_draws env =
     (\<forall>i. 0 \<le> random_before env i \<and> random_before env i < 1
        \<and> 0 \<le> random_after_get env i \<and> random_after_get env i < 1
        \<and> 0 \<le> random_retry env i \<and> random_retry env i < 1)"

subsection \<open>Rows and records\<close>

definition console_wellformed :: "string list \<Rightarrow> bool" where
  "console_wellformed cols = (7 \<le> length cols)"

definition console_accepts :: "string list \<Rightarrow> bool" where
  "console_accepts cols =
     (console_wellformed cols \<and> list_ex (\<lambda>console. str_in console (cols ! 1)) NINTENDO_CONSOLES)"

definition skip_warning :: "string list \<Rightarrow> event" where
  "skip_warning cols = Log WARNING (SkippingRow cols)"

definition row_accepted :: "row_read \<Rightarrow> bool" where
  "row_accepted r = (case r of Cells cols \<Rightarrow> 7 \<le> length cols | RowRaises e \<Rightarrow> False)"

definition row_record :: "row_read \<Rightarrow> dict" where
  "row_record r = (case r of Cells cols \<Rightarrow> game_record cols | RowRaises e \<Rightarrow> [])"

definition row_warning :: "row_read \<Rightarrow> event" where
  "row_warning r =
     (case r of
        Cells cols \<Rightarrow> Log WARNING (SkippingRow cols)
      | RowRaises e \<Rightarrow> Log WARNING (ErrorProcessingRow (str_exn e)))"

definition CONSOLE_FIELDS :: "string list" where
  "CONSOLE_FIELDS =
     [''Console'', ''North America (M)'', ''Europe (M)'', ''Japan (M)'', ''Rest of World (M)'',
      ''Total Sales (M)'']"

definition METACRITIC_FIELDS :: "string list" where
  "METACRITIC_FIELDS = [''Game'', ''Metascore'', ''Release Date'']"

text \<open>The file that \<^verbatim>\<open>DictWriter\<close> writes for records that all have the same keys.\<close>

definition csv_of :: "dict list \<Rightarrow> csv" where
  "csv_of data = keys (hd data) # map (map snd) data"

definition short_row :: "string list" where
  "short_row = [''51'', ''Wii'']"

definition playstation_row :: "string list" where
  "playstation_row = [''1'', ''PlayStation 4'', ''30.1'', ''45.9'', ''9.7'', ''31.4'', ''117.2'']"

definition mario_row :: "string list" where
  "mario_row = [''1'', ''Mario Kart 8 Deluxe'', ''NS'', ''Nintendo'', ''Nintendo EPD'', ''55.46'', ''28th Apr 17'']"

text \<open>
  The answers of \<^verbatim>\<open>fromisoformat\<close> (CPython 3.11) on the strings of the examples;
  a string such as \<open>03/03/2017\<close> is rejected.
\<close>

definition iso_parser :: "string \<Rightarrow> date option" where
  "iso_parser s =
     (if s = ''2017-03-03T00:00:00.000+00:00'' then Some (2017, 3, 3)
      else if s = ''0999-01-02T00:00:00.000+00:00'' then Some (999, 1, 2)
      else None)"

text \<open>
  The format \<open>YYYY-MM-DD\<close> in the words of the specification: the year in four digits,
  the month and the day in two.
\<close>

definition YYYY_MM_DD :: "date \<Rightarrow> string" where
  "YYYY_MM_DD dt =
     (case dt of (y, m, d) \<Rightarrow>
        [digit (y div 1000), digit (y div 100), digit (y div 10), digit y, CHR ''-'',
         digit (m div 10), digit m, CHR ''-'',
         digit (d div 10), digit d])"

definition zelda :: "string \<Rightarrow> listed_game" where
  "zelda released =
     \<lparr>game_id = Some ''1548'', listed_name = Some ''Zelda'', random_pause = 1 / 2, choice_detail = 2,
      detail_response =
        Inr \<lparr>name = Some ''Zelda'', topCriticScore = Some ''96'', firstReleaseDate = Some released\<rparr>\<rparr>"

definition sample_env :: "bool \<Rightarrow> (nat \<Rightarrow> 'p nav) \<Rightarrow> 'p selenium_env" where
  "sample_env present nav =
     \<lparr>choice_setup = 0, choice_cdp = 1, chromedriver_exists = present, chrome_error = None,
      cdp_error = (\<lambda>k. None), random_before = (\<lambda>i. 0), random_after_get = (\<lambda>i. 1 / 2),
      random_retry = (\<lambda>i. 3 / 4), navigation = nav, io_error = None, quit_error = None\<rparr>"

definition always_timeout :: "nat \<Rightarrow> 'p nav" where
  "always_timeout i = WaitRaises (TimeoutException ''Message: timeout'')"

fun prelude_event :: "event \<Rightarrow> bool" where
  "prelude_event (Log l m) = True"
| "prelude_event (RandomChoice ua) = True"
| "prelude_event (StartChrome ua) = True"
| "prelude_event (CdpUserAgentOverride ua p l) = (p = ''Windows'' \<and> l = ''en-US,en;q=0.9'')"
| "prelude_event CdpAddScript = True"
| "prelude_event CdpExtraHeaders = True"
| "prelude_event _ = False"

fun loop_event :: "'p selenium_env \<Rightarrow> string \<Rightarrow> string \<Rightarrow> event \<Rightarrow> bool" where
  "loop_event env url path (Log l m) = True"
| "loop_event env url path (Get u) = (u = url)"
| "loop_event env url path (Sleep BeforeAttempt d) = (\<exists>i. d = uniform 2 5 (random_before env i))"
| "loop_event env url path (Sleep AfterGet d) = (\<exists>i. d = uniform 3 7 (random_after_get env i))"
| "loop_event env url path (Sleep BeforeRetry d) = (\<exists>i. d = uniform 3 7 (random_retry env i))"
| "loop_event env url path (WriteCsv p f) = (p = path)"
| "loop_event env url path _ = False"

fun is_good_element :: "game_element \<Rightarrow> bool" where
  "is_good_element (GameElement t s d) = True"
| "is_good_element (BrokenElement e) = False"

fun element_record :: "game_element \<Rightarrow> dict" where
  "element_record (GameElement title score release_date) =
     [(''Game'', title), (''Metascore'', score), (''Release Date'', release_date)]"
| "element_record (BrokenElement e) = []"

fun element_warning :: "game_element \<Rightarrow> event" where
  "element_warning (BrokenElement e) = Log WARNING (ErrorProcessingGame (str_exn e))"
| "element_warning (GameElement t s d) = Log WARNING (ErrorProcessingGame [])"

definition run_shape :: "'p selenium_env \<Rightarrow> string \<Rightarrow> string \<Rightarrow> event list \<Rightarrow> bool" where
  "run_shape env url path tr =
     (\<exists>pre body post. tr = pre @ body @ post
        \<and> list_all prelude_event pre \<and> length (filter is_RandomChoice pre) \<le> 2
        \<and> list_all (loop_event env url path) body
        \<and> (post = [] \<or> post = quit_driver env))"

definition within_jitter :: "rat \<Rightarrow> bool" where
  "within_jitter d = (2 \<le> d \<and> d \<le> 5)"

text \<open>
  A run of the Metacritic scraper whose first attempt times out and whose second attempt
  finds one game.
\<close>

fun timeout_then_game :: "nat \<Rightarrow> game_element list nav" where
  "timeout_then_game 0 = WaitRaises (TimeoutException ''Message: timeout'')"
| "timeout_then_game (Suc i) = Ready ''Metacritic'' [GameElement ''Zelda'' ''97'' ''Mar 3, 2017'']"

definition closing_log :: "exn option \<Rightarrow> event list" where
  "closing_log q = (case q of None \<Rightarrow> [] | Some e \<Rightarrow> [Log WARNING (ErrorClosingDriver (str_exn e))])"


fun mc_retried :: "game_element list nav \<Rightarrow> bool" where
  "mc_retried (GetRaises e) = is_WebDriverException e"
| "mc_retried (WaitRaises e) = is_WebDriverException e"
| "mc_retried (Ready title games) = (games = [])"











text \<open>The events of an attempt up to the page title.\<close>

definition attempt_head :: "'p selenium_env \<Rightarrow> string \<Rightarrow> nat \<Rightarrow> string \<Rightarrow> event list" where
  "attempt_head env url attempt title =
     [Sleep BeforeAttempt (uniform 2 5 (random_before env attempt)), Get url,
      Log INFO (PageLoaded (attempt + 1) max_retries),
      Sleep AfterGet (uniform 3 7 (random_after_get env attempt)),
      Log INFO (PageTitle title)]"

text \<open>
  The effect of a run on the file store. \<open>untouched\<close>: the run opened no file for writing
  and the store is as it was before. \<open>wrote\<close>: the run opened one file for writing, the
  destination, which holds the given lines after the run, and the store changed there only.
  \<open>saved\<close>: the run logged that the records were saved.
\<close>

definition untouched :: "files \<Rightarrow> event list \<Rightarrow> files \<Rightarrow> bool" where
  "untouched fs tr fs' = (fs' = fs \<and> writes tr = [])"

definition wrote :: "string \<Rightarrow> csv \<Rightarrow> files \<Rightarrow> event list \<Rightarrow> files \<Rightarrow> bool" where
  "wrote path file fs tr fs' = (writes tr = [WriteCsv path file] \<and> fs' = fs(path \<mapsto> file))"

definition saved :: "string \<Rightarrow> event list \<Rightarrow> bool" where
  "saved path tr = (Log INFO (SavedTo path) \<in> set tr)"

text \<open>
  What the answer of the file system means for the records that reach the writer: whether
  the file is opened, whether all lines are written (the file of \<open>data\<close> has one line more
  than \<open>data\<close> has records), and the lines that the file holds when it is closed.
\<close>

definition opens :: "io_fault option \<Rightarrow> bool" where
  "opens io = (case io of Some (OpenRaises m) \<Rightarrow> False | _ \<Rightarrow> True)"

definition write_completes :: "io_fault option \<Rightarrow> dict list \<Rightarrow> bool" where
  "write_completes io data =
     (case io of
        None \<Rightarrow> True
      | Some (OpenRaises m) \<Rightarrow> False
      | Some (WriteRaises n m) \<Rightarrow> length data < n)"

definition written_file :: "io_fault option \<Rightarrow> dict list \<Rightarrow> csv" where
  "written_file io data =
     (case io of Some (WriteRaises n m) \<Rightarrow> take n (csv_of data) | _ \<Rightarrow> csv_of data)"

text \<open>
  The effect of a run whose accepted records are \<open>data\<close>. Without a record, or when the
  file cannot be opened, the store is untouched and nothing is reported as saved. Otherwise
  the destination is written once and holds the lines that were written before a failure,
  all of them when there is none; the run reports the records as saved exactly when the
  write completes.
\<close>

definition save_effect ::
  "string \<Rightarrow> io_fault option \<Rightarrow> dict list \<Rightarrow> files \<Rightarrow> event list \<Rightarrow> files \<Rightarrow> bool" where
  "save_effect path io data fs tr fs' =
     (if data = [] \<or> \<not> opens io then untouched fs tr fs' \<and> \<not> saved path tr
      else wrote path (written_file io data) fs tr fs' \<and> saved path tr = write_completes io data)"

text \<open>A trace without a write and without the line that reports the records as saved.\<close>

definition inert :: "string \<Rightarrow> event list \<Rightarrow> bool" where
  "inert path tr = (writes tr = [] \<and> \<not> saved path tr)"

text \<open>
  The records that a run accepts: the console scraper from the rows of the table after the
  first, an attempt of the Metacritic scraper from the game elements of its page. A run of
  the Metacritic scraper reaches its loop when the driver starts and the three CDP commands
  pass; the attempt that ends the loop is the first that is not retried, the third at the
  latest; the records of the run are the records of that attempt.
\<close>

definition console_accepted :: "console_env \<Rightarrow> dict list" where
  "console_accepted env =
     (case console_response env of
        Inr (Some trs) \<Rightarrow> map console_record (filter console_accepts (drop 1 trs))
      | _ \<Rightarrow> [])"

fun mc_accepted :: "game_element list nav \<Rightarrow> dict list" where
  "mc_accepted (Ready title games) = map element_record (filter is_good_element games)"
| "mc_accepted _ = []"

definition started :: "'p selenium_env \<Rightarrow> bool" where
  "started env =
     (chromedriver_exists env \<and> chrome_error env = None
      \<and> cdp_error env 0 = None \<and> cdp_error env 1 = None \<and> cdp_error env 2 = None)"

definition mc_last_attempt :: "game_element list selenium_env \<Rightarrow> nat" where
  "mc_last_attempt env =
     (if \<not> mc_retried (navigation env 0) then 0
      else if \<not> mc_retried (navigation env 1) then 1
      else 2)"

definition mc_run_records :: "game_element list selenium_env \<Rightarrow> dict list" where
  "mc_run_records env =
     (if started env then mc_accepted (navigation env (mc_last_attempt env)) else [])"

text \<open>
  The store that a run of the OpenCritic scraper over one game leaves; Metacritic and
  OpenCritic share the destination \<open>nintendo_game_scores.csv\<close>.
\<close>

definition opencritic_sample :: opencritic_env where
  "opencritic_sample =
     \<lparr>choice_list = 0, list_response = Inr [zelda ''2017-03-03T00:00:00.000Z''],
      opencritic_io_error = None\<rparr>"

definition stale_store :: files where
  "stale_store =
     [SCORES_OUTPUT_FILE \<mapsto>
        [[''Game'', ''OpenCritic Score'', ''Release Date''], [''Zelda'', ''96'', ''2017-03-03'']]]"

text \<open>
  Runs of the Metacritic scraper that find one game on their second attempt: one cannot open
  its output file, the other opens it, writes the header and fails on the next line. And a
  table of console sales: the header row, one Nintendo console, one other console and one
  short row.
\<close>

definition write_refused :: "game_element list selenium_env" where
  "write_refused =
     (sample_env True timeout_then_game)
       \<lparr>io_error := Some (OpenRaises ''[Errno 13] Permission denied'')\<rparr>"

definition write_cut :: "game_element list selenium_env" where
  "write_cut =
     (sample_env True timeout_then_game)
       \<lparr>io_error := Some (WriteRaises 1 ''[Errno 5] Input/output error'')\<rparr>"

definition console_sample :: console_env where
  "console_sample =
     \<lparr>console_response =
        Inr (Some [[], [''2'', ''Nintendo Switch'', ''40.1'', ''30.2'', ''25.3'', ''15.4'', ''111.0''],
                   playstation_row, short_row]),
      console_io_error = None\<rparr>"

section \<open>Helper lemmas\<close>

lemma startswith_iff: "startswith s p \<longleftrightarrow> (\<exists>post. s = p @ post)"
  by (induction s p rule: startswith.induct) auto

lemma str_in_iff: "str_in sub s \<longleftrightarrow> (\<exists>pre post. s = pre @ sub @ post)"
proof (induction s)
  case Nil
  show ?case by auto
next
  case (Cons c s)
  show ?case
  proof
    assume "str_in sub (c # s)"
    then consider "startswith (c # s) sub" | "str_in sub s" by auto
    then show "\<exists>pre post. c # s = pre @ sub @ post"
    proof cases
      case 1
      then obtain post where "c # s = sub @ post" by (auto simp: startswith_iff)
      then have "c # s = [] @ sub @ post" by simp
      then show ?thesis by blast
    next
      case 2
      then obtain pre post where "s = pre @ sub @ post" using Cons.IH by blast
      then have "c # s = (c # pre) @ sub @ post" by simp
      then show ?thesis by blast
    qed
  next
    assume "\<exists>pre post. c # s = pre @ sub @ post"
    then obtain pre post where eq: "c # s = pre @ sub @ post" by blast
    show "str_in sub (c # s)"
    proof (cases pre)
      case Nil
      then have "startswith (c # s) sub" using eq by (auto simp: startswith_iff)
      then show ?thesis by simp
    next
      case (Cons d pre')
      then have "s = pre' @ sub @ post" using eq by simp
      then have "str_in sub s" using Cons.IH by blast
      then show ?thesis by simp
    qed
  qed
qed

lemma console_rows_eq:
  "console_rows rows (data, tr) =
     (data @ map console_record (filter console_accepts rows),
      tr @ map skip_warning (filter (\<lambda>cols. \<not> console_wellformed cols) rows))"
proof (induction rows arbitrary: data tr)
  case Nil
  show ?case by simp
next
  case (Cons cols rows)
  have short: "(cols = [] \<or> length cols < 7) = (\<not> console_wellformed cols)"
    by (auto simp: console_wellformed_def)
  show ?case
    by (simp add: Cons.IH short console_accepts_def skip_warning_def)
qed

lemma vg_rows_eq:
  "vg_rows rs (data, tr) =
     (data @ map row_record (filter row_accepted rs),
      tr @ map row_warning (filter (\<lambda>r. \<not> row_accepted r) rs))"
proof (induction rs arbitrary: data tr)
  case Nil
  show ?case by simp
next
  case (Cons r rs)
  show ?case
  proof (cases r)
    case (Cells cols)
    have short: "(cols = [] \<or> length cols < 7) = (\<not> 7 \<le> length cols)"
      by auto
    show ?thesis
      by (simp add: Cells Cons.IH short row_accepted_def row_record_def row_warning_def)
  next
    case (RowRaises e)
    show ?thesis
      by (simp add: RowRaises Cons.IH row_accepted_def row_record_def row_warning_def)
  qed
qed

lemma console_accepts_iff:
  "console_accepts cols \<longleftrightarrow>
     7 \<le> length cols \<and> (\<exists>console \<in> set NINTENDO_CONSOLES. \<exists>pre post. cols ! 1 = pre @ console @ post)"
  by (simp add: console_accepts_def console_wellformed_def list_ex_iff str_in_iff)

section \<open>The claims\<close>

text \<open>
  C9. In the console-sales scraper a row with at least 7 cells is added to the record set if
  and only if its name cell (index 1) contains one of the 12 names of
  \<open>NINTENDO_CONSOLES\<close> as a substring; the rows that fail this test leave no log line,
  and the only warnings of the loop are those of the rows with fewer than 7 cells.
\<close>

theorem console_filter_by_name:
  "console_rows rows (data, tr) =
     (data @ map console_record (filter console_accepts rows),
      tr @ map skip_warning (filter (\<lambda>cols. length cols < 7) rows))
   \<and> (console_accepts cols \<longleftrightarrow>
        7 \<le> length cols
        \<and> (\<exists>console \<in> set NINTENDO_CONSOLES. \<exists>pre post. cols ! 1 = pre @ console @ post))
   \<and> length NINTENDO_CONSOLES = 12"
proof -
  have "(\<lambda>cols. \<not> console_wellformed cols) = (\<lambda>cols::string list. length cols < 7)"
    by (auto simp: console_wellformed_def)
  then show ?thesis
    using console_rows_eq [of rows data tr] console_accepts_iff [of cols]
    by (simp add: NINTENDO_CONSOLES_def)
qed

theorem console_filter_by_name_witness:
  "console_rows
     [[''1'', ''Nintendo Wii U'', ''a'', ''b'', ''c'', ''d'', ''e''],
      [''2'', ''PlayStation 4'', ''a'', ''b'', ''c'', ''d'', ''e''],
      [''3'', ''Switch'']] ([], [])
   = ([[(''Console'', ''Nintendo Wii U''), (''North America (M)'', ''a''), (''Europe (M)'', ''b''),
        (''Japan (M)'', ''c''), (''Rest of World (M)'', ''d''), (''Total Sales (M)'', ''e'')]],
      [Log WARNING (SkippingRow [''3'', ''Switch''])])"
  using console_filter_by_name
    [of "[[''1'', ''Nintendo Wii U'', ''a'', ''b'', ''c'', ''d'', ''e''],
          [''2'', ''PlayStation 4'', ''a'', ''b'', ''c'', ''d'', ''e''],
          [''3'', ''Switch'']]" "[]" "[]" "[]"]
  by (simp add: console_accepts_def console_wellformed_def NINTENDO_CONSOLES_def
      console_record_def skip_warning_def)

lemma fst_console_rows:
  "fst (console_rows rows (data, tr)) = data @ map console_record (filter console_accepts rows)"
  by (simp add: console_rows_eq)

lemma fst_vg_rows:
  "fst (vg_rows rs (data, tr)) = data @ map row_record (filter row_accepted rs)"
  by (simp add: vg_rows_eq)

lemma filter_accepted_Cells:
  "map row_record (filter row_accepted (map Cells rows)) = map game_record (filter console_wellformed rows)"
  by (induction rows) (auto simp: row_accepted_def row_record_def console_wellformed_def)

lemma filter_rejected_Cells:
  "map row_warning (filter (\<lambda>r. \<not> row_accepted r) (map Cells rows))
     = map skip_warning (filter (\<lambda>cols. \<not> console_wellformed cols) rows)"
  by (induction rows) (auto simp: row_accepted_def row_warning_def skip_warning_def console_wellformed_def)

lemma length_wellformed:
  "length (filter console_wellformed rows) + length (filter (\<lambda>cols. length cols < 7) rows) = length rows"
proof -
  have "(\<lambda>cols::string list. length cols < 7) = (\<lambda>cols. \<not> console_wellformed cols)"
    by (auto simp: console_wellformed_def)
  then show ?thesis
    using sum_length_filter_compl [of console_wellformed rows] by simp
qed

text \<open>
  The console-sales extractor on 50 rows, 3 of them short and 47 well formed: the 47 name
  a console that is not in \<open>NINTENDO_CONSOLES\<close>, and the record set is empty.
\<close>

theorem console_rows_47_counterexample:
  "length (replicate 3 short_row @ replicate 47 playstation_row) = 50
   \<and> length (filter console_wellformed (replicate 3 short_row @ replicate 47 playstation_row)) = 47
   \<and> fst (console_rows (replicate 3 short_row @ replicate 47 playstation_row) ([], [])) = []"
  by (simp add: fst_console_rows console_accepts_def console_wellformed_def short_row_def
      playstation_row_def NINTENDO_CONSOLES_def)

text \<open>
  C3, amended. In both table extractors a row with fewer than 7 cells is skipped with a
  warning and changes nothing else: the record set is the one of the input without that row.
  The game-sales extractor turns every row with at least 7 cells into a record, so 50 rows
  of which 3 are short give exactly the 47 records of the well-formed rows, in order, and 3
  warnings. The console-sales extractor keeps, of the well-formed rows, those that pass its
  console-name filter: at most as many records as well-formed rows.
\<close>

theorem short_rows_skipped:
  "vg_rows rs ([], []) =
     (map row_record (filter row_accepted rs), map row_warning (filter (\<lambda>r. \<not> row_accepted r) rs))
   \<and> (length short < 7 \<longrightarrow>
        fst (vg_rows (rs1 @ Cells short # rs2) st) = fst (vg_rows (rs1 @ rs2) st))
   \<and> (length rows = 50 \<and> length (filter (\<lambda>cols. length cols < 7) rows) = 3 \<longrightarrow>
        vg_rows (map Cells rows) ([], []) =
          (map game_record (filter console_wellformed rows),
           map skip_warning (filter (\<lambda>cols. length cols < 7) rows))
        \<and> length (fst (vg_rows (map Cells rows) ([], []))) = 47)
   \<and> console_rows rows ([], []) =
        (map console_record (filter console_accepts rows),
         map skip_warning (filter (\<lambda>cols. length cols < 7) rows))
   \<and> (length short < 7 \<longrightarrow>
        fst (console_rows (rows1 @ short # rows2) st') = fst (console_rows (rows1 @ rows2) st'))
   \<and> length (fst (console_rows rows ([], []))) \<le> length (filter console_wellformed rows)"
proof -
  have short_eq: "(\<lambda>cols::string list. \<not> console_wellformed cols) = (\<lambda>cols. length cols < 7)"
    by (auto simp: console_wellformed_def)
  have a: "vg_rows rs ([], []) =
     (map row_record (filter row_accepted rs), map row_warning (filter (\<lambda>r. \<not> row_accepted r) rs))"
    by (simp add: vg_rows_eq)
  have b: "length short < 7 \<longrightarrow>
        fst (vg_rows (rs1 @ Cells short # rs2) st) = fst (vg_rows (rs1 @ rs2) st)"
    by (cases st) (simp add: vg_rows_eq row_accepted_def)
  have c1: "vg_rows (map Cells rows) ([], []) =
          (map game_record (filter console_wellformed rows),
           map skip_warning (filter (\<lambda>cols. length cols < 7) rows))"
    using filter_accepted_Cells [of rows] filter_rejected_Cells [of rows]
    by (simp add: vg_rows_eq short_eq)
  have c2: "length rows = 50 \<and> length (filter (\<lambda>cols. length cols < 7) rows) = 3 \<longrightarrow>
        length (fst (vg_rows (map Cells rows) ([], []))) = 47"
    using length_wellformed [of rows] by (simp add: c1)
  have d: "console_rows rows ([], []) =
        (map console_record (filter console_accepts rows),
         map skip_warning (filter (\<lambda>cols. length cols < 7) rows))"
    by (simp add: console_rows_eq short_eq)
  have e: "length short < 7 \<longrightarrow>
        fst (console_rows (rows1 @ short # rows2) st') = fst (console_rows (rows1 @ rows2) st')"
    by (cases st') (simp add: console_rows_eq console_accepts_def console_wellformed_def)
  have "filter console_accepts rows = filter console_accepts (filter console_wellformed rows)"
    by (induction rows) (auto simp: console_accepts_def)
  then have "length (filter console_accepts rows) \<le> length (filter console_wellformed rows)"
    using length_filter_le [of console_accepts "filter console_wellformed rows"] by simp
  then have f: "length (fst (console_rows rows ([], []))) \<le> length (filter console_wellformed rows)"
    by (simp add: d)
  from a b c1 c2 d e f show ?thesis by blast
qed

theorem short_rows_skipped_witness:
  "length [''x''] < 7
   \<and> length (replicate 3 short_row @ replicate 47 mario_row) = 50
   \<and> length (filter (\<lambda>cols. length cols < 7) (replicate 3 short_row @ replicate 47 mario_row)) = 3
   \<and> vg_rows (map Cells (replicate 3 short_row @ replicate 47 mario_row)) ([], [])
       = (replicate 47 (game_record mario_row), replicate 3 (skip_warning short_row))
   \<and> length (fst (vg_rows (map Cells (replicate 3 short_row @ replicate 47 mario_row)) ([], []))) = 47
   \<and> fst (vg_rows ([Cells mario_row] @ Cells [''x''] # [Cells mario_row]) ([], []))
       = fst (vg_rows ([Cells mario_row] @ [Cells mario_row]) ([], []))"
  using short_rows_skipped
    [of "[]" "[''x'']" "[Cells mario_row]" "[Cells mario_row]" "([], [])"
        "replicate 3 short_row @ replicate 47 mario_row" "[]" "[]" "([], [])"]
  by (simp add: short_row_def mario_row_def console_wellformed_def)

lemma oc_games_extends:
  "\<exists>rest. fst (oc_games fromisoformat pads_year games (data, tr)) = data @ rest"
proof (induction games arbitrary: data tr)
  case Nil
  show ?case by simp
next
  case (Cons game games)
  obtain data' tr' where step: "oc_game fromisoformat pads_year game (data, tr) = (data', tr')"
    by (cases "oc_game fromisoformat pads_year game (data, tr)")
  have "\<exists>more. data' = data @ more"
    using step
    by (auto simp: oc_game_def Let_def split: option.splits sum.splits prod.splits)
  then obtain more where more: "data' = data @ more" by blast
  obtain rest where "fst (oc_games fromisoformat pads_year games (data', tr')) = data' @ rest"
    using Cons.IH by blast
  then show ?case by (simp add: step more)
qed

text \<open>
  A game whose \<open>firstReleaseDate\<close> is a non-empty string is appended to the record set
  and logged as processed, whatever \<^verbatim>\<open>fromisoformat\<close> answers: with the empty
  string as its release date when the string is rejected, with the date as
  \<^verbatim>\<open>strftime\<close> prints it otherwise. The record stays in the record set for the rest
  of the loop.
\<close>

lemma unparseable_date_kept:
  assumes "game_id game = Some gid"
    and "detail_response game = Inr details"
    and "firstReleaseDate details = Some released"
    and "released \<noteq> []"
  shows "oc_game fromisoformat pads_year game (data, tr) =
           (data @ [[(''Game'', case name details of Some n \<Rightarrow> n | None \<Rightarrow> []),
                     (''OpenCritic Score'', case topCriticScore details of Some n \<Rightarrow> n | None \<Rightarrow> ''0''),
                     (''Release Date'',
                        case fromisoformat (replace_Z released) of
                          None \<Rightarrow> []
                        | Some dt \<Rightarrow> strftime_Ymd pads_year dt)]],
            tr @ [Sleep BetweenRequests (uniform (1 / 2) (3 / 2) (random_pause game)),
                  RandomChoice (user_agents ! (choice_detail game mod length user_agents)),
                  HttpGet (OPENCRITIC_API_URL @ ''/'' @ gid),
                  Log INFO (ProcessedGame (case name details of Some n \<Rightarrow> n | None \<Rightarrow> []))])"
    and "\<exists>rest. fst (oc_games fromisoformat pads_year (game # games) (data, tr)) =
             data @ [(''Game'', case name details of Some n \<Rightarrow> n | None \<Rightarrow> []),
                     (''OpenCritic Score'', case topCriticScore details of Some n \<Rightarrow> n | None \<Rightarrow> ''0''),
                     (''Release Date'',
                        case fromisoformat (replace_Z released) of
                          None \<Rightarrow> []
                        | Some dt \<Rightarrow> strftime_Ymd pads_year dt)] # rest"
proof -
  let ?rec = "[(''Game'', case name details of Some n \<Rightarrow> n | None \<Rightarrow> []),
               (''OpenCritic Score'', case topCriticScore details of Some n \<Rightarrow> n | None \<Rightarrow> ''0''),
               (''Release Date'',
                  case fromisoformat (replace_Z released) of
                    None \<Rightarrow> []
                  | Some dt \<Rightarrow> strftime_Ymd pads_year dt)]"
  show step: "oc_game fromisoformat pads_year game (data, tr) =
           (data @ [?rec],
            tr @ [Sleep BetweenRequests (uniform (1 / 2) (3 / 2) (random_pause game)),
                  RandomChoice (user_agents ! (choice_detail game mod length user_agents)),
                  HttpGet (OPENCRITIC_API_URL @ ''/'' @ gid),
                  Log INFO (ProcessedGame (case name details of Some n \<Rightarrow> n | None \<Rightarrow> []))])"
    using assms
    by (simp add: oc_game_def get_random_user_agent_def convert_release_date_def Let_def
        split: option.splits)
  obtain rest where
    "fst (oc_games fromisoformat pads_year games (oc_game fromisoformat pads_year game (data, tr)))
       = (data @ [?rec]) @ rest"
    using oc_games_extends [of fromisoformat pads_year games "data @ [?rec]"] step by auto
  then show "\<exists>rest. fst (oc_games fromisoformat pads_year (game # games) (data, tr)) = data @ ?rec # rest"
    by simp
qed

text \<open>
  What \<^verbatim>\<open>strftime('%Y-%m-%d')\<close> prints is the format \<open>YYYY-MM-DD\<close> for every date
  when the platform zero-fills the year, and for the dates from the year 1000 on when it
  does not.
\<close>

lemma decimal_digits:
  "n < 10 \<Longrightarrow> decimal n = [digit n]"
  "10 \<le> n \<Longrightarrow> n < 100 \<Longrightarrow> decimal n = [digit (n div 10), digit n]"
  "100 \<le> n \<Longrightarrow> n < 1000 \<Longrightarrow> decimal n = [digit (n div 100), digit (n div 10), digit n]"
  "1000 \<le> n \<Longrightarrow> n < 10000 \<Longrightarrow>
     decimal n = [digit (n div 1000), digit (n div 100), digit (n div 10), digit n]"
proof -
  have d: "n div 10 div 10 = n div 100" "n div 100 div 10 = n div 1000"
    by (simp_all add: div_mult2_eq [symmetric])
  have step: "\<not> k < 10 \<Longrightarrow> decimal k = decimal (k div 10) @ [digit k]" for k
    by (subst decimal.simps) simp
  show one: "k < 10 \<Longrightarrow> decimal k = [digit k]" for k
    by (subst decimal.simps) simp
  show two: "10 \<le> k \<Longrightarrow> k < 100 \<Longrightarrow> decimal k = [digit (k div 10), digit k]" for k
    using step [of k] one [of "k div 10"] by simp
  show three: "100 \<le> k \<Longrightarrow> k < 1000 \<Longrightarrow>
      decimal k = [digit (k div 100), digit (k div 10), digit k]" for k
    using step [of k] two [of "k div 10"] by (simp add: div_mult2_eq [symmetric])
  show "1000 \<le> n \<Longrightarrow> n < 10000 \<Longrightarrow>
      decimal n = [digit (n div 1000), digit (n div 100), digit (n div 10), digit n]"
    using step [of n] three [of "n div 10"] by (simp add: div_mult2_eq [symmetric])
qed

lemma zfill_two: "k < 100 \<Longrightarrow> zfill 2 (decimal k) = [digit (k div 10), digit k]"
proof (cases "k < 10")
  case True
  then show ?thesis
    by (simp add: decimal_digits(1) zfill_def digit_def)
next
  case False
  assume "k < 100"
  then show ?thesis
    using False by (simp add: decimal_digits(2) zfill_def)
qed

lemma zfill_four:
  assumes "y < 10000"
  shows "zfill 4 (decimal y) = [digit (y div 1000), digit (y div 100), digit (y div 10), digit y]"
proof -
  consider "y < 10" | "10 \<le> y" "y < 100" | "100 \<le> y" "y < 1000" | "1000 \<le> y"
    by linarith
  then show ?thesis
  proof cases
    case 1
    then show ?thesis
      by (simp add: decimal_digits(1) zfill_def digit_def numeral_3_eq_3)
  next
    case 2
    then have "y div 100 = 0" "y div 1000 = 0" by simp_all
    then show ?thesis
      using 2 by (simp add: decimal_digits(2) zfill_def digit_def numeral_2_eq_2)
  next
    case 3
    then have "y div 1000 = 0" by simp
    then show ?thesis
      using 3 by (simp add: decimal_digits(3) zfill_def digit_def)
  next
    case 4
    then show ?thesis
      using assms by (simp add: decimal_digits(4) zfill_def)
  qed
qed

lemma strftime_digits:
  assumes "m < 100" and "d < 100"
  shows "strftime_Ymd pads_year (y, m, d) =
           (if pads_year then zfill 4 (decimal y) else decimal y)
           @ [CHR ''-'', digit (m div 10), digit m, CHR ''-'', digit (d div 10), digit d]"
  using assms by (simp add: strftime_Ymd_def zfill_two)

lemma strftime_YYYY_MM_DD:
  assumes "pads_year \<or> 1000 \<le> y" and "y < 10000" and "m < 100" and "d < 100"
  shows "strftime_Ymd pads_year (y, m, d) = YYYY_MM_DD (y, m, d)"
proof (cases pads_year)
  case True
  then show ?thesis
    using assms by (simp add: strftime_Ymd_def YYYY_MM_DD_def zfill_four zfill_two)
next
  case False
  then have "1000 \<le> y" using assms(1) by simp
  then show ?thesis
    using False assms by (simp add: strftime_Ymd_def YYYY_MM_DD_def decimal_digits(4) zfill_two)
qed

lemma oc_game_zelda:
  "fst (oc_game iso_parser pads_year (zelda released) ([], [])) =
     [[(''Game'', ''Zelda''), (''OpenCritic Score'', ''96''),
       (''Release Date'', convert_release_date iso_parser pads_year released)]]"
  by (simp add: oc_game_def zelda_def get_random_user_agent_def Let_def)

text \<open>
  C10. A game whose \<open>firstReleaseDate\<close> cannot be parsed is kept, with the empty string
  as its release date, and a date of the year 2017 is written as \<open>YYYY-MM-DD\<close>. But on a
  platform whose \<^verbatim>\<open>strftime\<close> does not zero-fill the year, the release date
  \<open>0999-01-02T00:00:00.000Z\<close>, which \<^verbatim>\<open>fromisoformat\<close> accepts, is written as
  \<open>999-01-02\<close>, a year of three digits, where \<open>YYYY-MM-DD\<close> is \<open>0999-01-02\<close>; a
  platform that zero-fills writes \<open>0999-01-02\<close>.
\<close>

theorem release_year_not_padded:
  "iso_parser (replace_Z ''0999-01-02T00:00:00.000Z'') = Some (999, 1, 2)
   \<and> fst (oc_game iso_parser False (zelda ''0999-01-02T00:00:00.000Z'') ([], [])) =
       [[(''Game'', ''Zelda''), (''OpenCritic Score'', ''96''), (''Release Date'', ''999-01-02'')]]
   \<and> YYYY_MM_DD (999, 1, 2) = ''0999-01-02''
   \<and> fst (oc_game iso_parser True (zelda ''0999-01-02T00:00:00.000Z'') ([], [])) =
       [[(''Game'', ''Zelda''), (''OpenCritic Score'', ''96''), (''Release Date'', ''0999-01-02'')]]
   \<and> fst (oc_game iso_parser False (zelda ''2017-03-03T00:00:00.000Z'') ([], [])) =
       [[(''Game'', ''Zelda''), (''OpenCritic Score'', ''96''), (''Release Date'', ''2017-03-03'')]]
   \<and> fst (oc_game iso_parser False (zelda ''03/03/2017'') ([], [])) =
       [[(''Game'', ''Zelda''), (''OpenCritic Score'', ''96''), (''Release Date'', [])]]"
proof -
  have p1: "iso_parser (replace_Z ''0999-01-02T00:00:00.000Z'') = Some (999, 1, 2)"
    and p2: "iso_parser (replace_Z ''2017-03-03T00:00:00.000Z'') = Some (2017, 3, 3)"
    and p3: "iso_parser (replace_Z ''03/03/2017'') = None"
    by (simp_all add: iso_parser_def replace_Z_def)
  have f: "strftime_Ymd False (999, 1, 2) = ''999-01-02''"
    using strftime_digits [of 1 2 False 999] decimal_digits(3) [of 999] by (simp add: digit_def)
  have t: "strftime_Ymd True (999, 1, 2) = ''0999-01-02''"
    using strftime_digits [of 1 2 True 999] zfill_four [of 999] by (simp add: digit_def)
  have g: "strftime_Ymd False (2017, 3, 3) = ''2017-03-03''"
    using strftime_digits [of 3 3 False 2017] decimal_digits(4) [of 2017] by (simp add: digit_def)
  have s: "YYYY_MM_DD (999, 1, 2) = ''0999-01-02''"
    by (simp add: YYYY_MM_DD_def digit_def)
  show ?thesis
    by (simp add: oc_game_zelda convert_release_date_def p1 p2 p3 g
        f [unfolded One_nat_def] t [unfolded One_nat_def] s [unfolded One_nat_def])
qed

text \<open>
  C6. When the driver binary is not at its path, \<^verbatim>\<open>setup_driver\<close> logs the error and
  gives no driver, and both selenium scrapers return at once: the trace holds the start line,
  the one draw of the user agent and the error line, no \<^verbatim>\<open>driver.get\<close> and no
  retry, and the file store is unchanged.
\<close>

theorem missing_driver_aborts:
  assumes "\<not> chromedriver_exists env" and "\<not> chromedriver_exists env'"
  shows "setup_driver env =
           (Inr False, [RandomChoice (user_agents ! (choice_setup env mod length user_agents)),
                        Log ERROR ChromeDriverNotFound])
       \<and> scrape_metacritic_scores env fs =
           (Returned,
            [Log INFO (Scraping METACRITIC_URL),
             RandomChoice (user_agents ! (choice_setup env mod length user_agents)),
             Log ERROR ChromeDriverNotFound], fs)
       \<and> navigation_attempts (fst (snd (scrape_metacritic_scores env fs))) = 0
       \<and> scrape_vgchartz_game_sales env' fs =
           (Returned,
            [Log INFO (Scraping VGCHARTZ_URL),
             RandomChoice (user_agents ! (choice_setup env' mod length user_agents)),
             Log ERROR ChromeDriverNotFound], fs)
       \<and> navigation_attempts (fst (snd (scrape_vgchartz_game_sales env' fs))) = 0"
  using assms
  by (simp add: setup_driver_def scrape_metacritic_scores_def scrape_vgchartz_game_sales_def
      get_random_user_agent_def navigation_attempts_def Let_def)

theorem missing_driver_aborts_witness:
  "\<not> chromedriver_exists (sample_env False always_timeout :: game_element list selenium_env)
   \<and> \<not> chromedriver_exists (sample_env False always_timeout :: vg_page selenium_env)
   \<and> fst (snd (scrape_metacritic_scores (sample_env False always_timeout) Map.empty)) =
       [Log INFO (Scraping METACRITIC_URL), RandomChoice (user_agents ! 0),
        Log ERROR ChromeDriverNotFound]
   \<and> navigation_attempts (fst (snd (scrape_vgchartz_game_sales (sample_env False always_timeout) Map.empty))) = 0"
proof -
  let ?env = "sample_env False always_timeout :: game_element list selenium_env"
  let ?env' = "sample_env False always_timeout :: vg_page selenium_env"
  have a: "\<not> chromedriver_exists ?env"
    by (simp add: sample_env_def)
  have b: "\<not> chromedriver_exists ?env'"
    by (simp add: sample_env_def)
  have idx: "choice_setup ?env mod length user_agents = 0"
    by (simp add: sample_env_def)
  note run = missing_driver_aborts [OF a b, of Map.empty]
  from run have c: "fst (snd (scrape_metacritic_scores ?env Map.empty)) =
       [Log INFO (Scraping METACRITIC_URL), RandomChoice (user_agents ! 0),
        Log ERROR ChromeDriverNotFound]"
    by (simp add: idx)
  from run have d: "navigation_attempts (fst (snd (scrape_vgchartz_game_sales ?env' Map.empty))) = 0"
    by blast
  from a b c d show ?thesis by blast
qed

lemma mc_games_eq:
  "mc_games games (data, tr) =
     (data @ map element_record (filter is_good_element games),
      tr @ map element_warning (filter (\<lambda>g. \<not> is_good_element g) games))"
  by (induction games "(data, tr)" arbitrary: data tr rule: mc_games.induct) auto

lemma loop_event_intros:
  "loop_event env url path (Log l m)"
  "loop_event env url path (Get url)"
  "loop_event env url path (Sleep BeforeAttempt (uniform 2 5 (random_before env i)))"
  "loop_event env url path (Sleep AfterGet (uniform 3 7 (random_after_get env i)))"
  "loop_event env url path (Sleep BeforeRetry (uniform 3 7 (random_retry env i)))"
  "loop_event env url path (WriteCsv path f)"
  by auto

lemma save_csv_events:
  "list_all (loop_event env url path) (fst (snd (save_csv path io data fs)))"
  by (auto simp: save_csv_def Let_def split_def split: option.splits list.splits io_fault.splits)

lemma on_attempt_exn_events:
  "list_all (loop_event env url path) (snd (on_attempt_exn env attempt e))"
  by (simp add: on_attempt_exn_def loop_event_intros del: loop_event.simps)

lemma loop_event_element_warning: "loop_event env url path (element_warning g)"
  by (cases g) auto

lemma loop_event_row_warning: "loop_event env url path (row_warning r)"
  by (cases r) (auto simp: row_warning_def)

lemma loop_event_warnings:
  "list_all (loop_event env url path) (map element_warning gs)"
  "list_all (loop_event env url path) (map row_warning rs)"
  by (simp_all add: list_all_iff loop_event_element_warning loop_event_row_warning)

lemma mc_attempt_events:
  "list_all (loop_event env METACRITIC_URL SCORES_OUTPUT_FILE) (fst (snd (mc_attempt env attempt fs)))"
proof (cases "navigation env attempt")
  case (GetRaises e)
  then show ?thesis
    using on_attempt_exn_events [of env METACRITIC_URL SCORES_OUTPUT_FILE attempt e]
    by (simp add: mc_attempt_def Let_def split_def loop_event_intros del: loop_event.simps)
next
  case (WaitRaises e)
  then show ?thesis
    using on_attempt_exn_events [of env METACRITIC_URL SCORES_OUTPUT_FILE attempt e]
    by (simp add: mc_attempt_def Let_def split_def loop_event_intros del: loop_event.simps)
next
  case (Ready title games)
  show ?thesis
  proof (cases "games = []")
    case True
    then show ?thesis
      using Ready by (simp add: mc_attempt_def Let_def loop_event_intros del: loop_event.simps)
  next
    case False
    let ?data = "map element_record (filter is_good_element games)"
    obtain r tr4 fs' where sv: "save_csv SCORES_OUTPUT_FILE (io_error env) ?data fs = (r, tr4, fs')"
      by (cases "save_csv SCORES_OUTPUT_FILE (io_error env) ?data fs")
    have ev4: "list_all (loop_event env METACRITIC_URL SCORES_OUTPUT_FILE) tr4"
      using save_csv_events [of env METACRITIC_URL SCORES_OUTPUT_FILE "io_error env" ?data fs] sv
      by simp
    show ?thesis
      using Ready False ev4 sv
      by (simp add: mc_attempt_def Let_def split_def mc_games_eq loop_event_intros
          loop_event_warnings on_attempt_exn_events
          del: loop_event.simps split: option.splits)
  qed
qed

lemma mc_loop_events:
  "list_all (loop_event env METACRITIC_URL SCORES_OUTPUT_FILE) (fst (snd (mc_loop env attempts fs)))"
proof (induction attempts arbitrary: fs)
  case Nil
  show ?case by simp
next
  case (Cons attempt rest)
  obtain s tr fs' where at: "mc_attempt env attempt fs = (s, tr, fs')"
    by (cases "mc_attempt env attempt fs")
  have ev: "list_all (loop_event env METACRITIC_URL SCORES_OUTPUT_FILE) tr"
    using mc_attempt_events [of env attempt fs] at by simp
  show ?case
    using ev Cons.IH [of fs'] at
    by (cases s) (simp_all add: split_def Let_def)
qed

lemma vg_attempt_events:
  "list_all (loop_event env VGCHARTZ_URL SALES_OUTPUT_FILE) (snd (vg_attempt env attempt))"
  by (simp add: vg_attempt_def Let_def split_def loop_event_intros on_attempt_exn_events
      del: loop_event.simps split: nav.splits chart_probe.splits)

lemma vg_loop_events:
  "list_all (loop_event env VGCHARTZ_URL SALES_OUTPUT_FILE) (snd (vg_loop env attempts))"
proof (induction attempts)
  case Nil
  show ?case by simp
next
  case (Cons attempt rest)
  obtain s tr where at: "vg_attempt env attempt = (s, tr)"
    by (cases "vg_attempt env attempt")
  have ev: "list_all (loop_event env VGCHARTZ_URL SALES_OUTPUT_FILE) tr"
    using vg_attempt_events [of env attempt] at by simp
  show ?case
    using ev Cons.IH at
    by (cases s) (simp_all add: split_def Let_def)
qed

lemma vg_after_loop_events:
  "list_all (loop_event env VGCHARTZ_URL SALES_OUTPUT_FILE) (fst (snd (vg_after_loop env t fs)))"
proof (cases t)
  case (Inl e)
  then show ?thesis by (simp add: vg_after_loop_def)
next
  case (Inr trs)
  let ?data = "map row_record (filter row_accepted (drop 1 trs))"
  obtain r tr' fs' where sv: "save_csv SALES_OUTPUT_FILE (io_error env) ?data fs = (r, tr', fs')"
    by (cases "save_csv SALES_OUTPUT_FILE (io_error env) ?data fs")
  have ev: "list_all (loop_event env VGCHARTZ_URL SALES_OUTPUT_FILE) tr'"
    using save_csv_events [of env VGCHARTZ_URL SALES_OUTPUT_FILE "io_error env" ?data fs] sv
    by simp
  show ?thesis
    using Inr sv ev
    by (simp add: vg_after_loop_def vg_rows_eq Let_def split_def loop_event_intros
        loop_event_warnings del: loop_event.simps)
qed

lemma attempts_list: "[0..<max_retries] = [0, 1, 2]"
  by (simp add: max_retries_def numeral_3_eq_3)

lemma last_attempt: "(attempt = max_retries - 1) = (attempt = 2)"
  by (auto simp: max_retries_def)

lemma setup_driver_events:
  "list_all prelude_event (snd (setup_driver env))"
  "length (filter is_RandomChoice (snd (setup_driver env))) = 1"
  by (simp_all add: setup_driver_def get_random_user_agent_def Let_def split: option.splits)

lemma cdp_commands_events:
  "list_all prelude_event (snd (cdp_commands env))"
  "length (filter is_RandomChoice (snd (cdp_commands env))) = 1"
  by (simp_all add: cdp_commands_def get_random_user_agent_def Let_def split: option.splits)

lemma loop_event_no_choice:
  "list_all (loop_event env url path) tr \<Longrightarrow> filter is_RandomChoice tr = []"
proof (induction tr)
  case Nil
  show ?case by simp
next
  case (Cons e tr)
  then show ?case by (cases e) auto
qed

lemma mc_try_shape:
  "\<exists>pre body. fst (mc_try env fs) = pre @ body
      \<and> list_all prelude_event pre \<and> length (filter is_RandomChoice pre) = 1
      \<and> list_all (loop_event env METACRITIC_URL SCORES_OUTPUT_FILE) body"
proof -
  obtain r tr where cdp: "cdp_commands env = (r, tr)"
    by (cases "cdp_commands env")
  have pre: "list_all prelude_event tr" "length (filter is_RandomChoice tr) = 1"
    using cdp_commands_events [of env] cdp by simp_all
  show ?thesis
  proof (cases r)
    case (Some e)
    have "fst (mc_try env fs) = (tr @ [Log ERROR (ErrorOccurred (str_exn e))]) @ []"
      using cdp Some by (simp add: mc_try_def)
    then show ?thesis
      using pre
      by (intro exI [of _ "tr @ [Log ERROR (ErrorOccurred (str_exn e))]"] exI [of _ "[]"]) simp
  next
    case None
    obtain s tr' fs' where loop: "mc_loop env [0..<max_retries] fs = (s, tr', fs')"
      by (cases "mc_loop env [0..<max_retries] fs")
    have ev: "list_all (loop_event env METACRITIC_URL SCORES_OUTPUT_FILE) tr'"
      using mc_loop_events [of env "[0..<max_retries]" fs] loop by simp
    have "\<exists>body. fst (mc_try env fs) = tr @ body
            \<and> list_all (loop_event env METACRITIC_URL SCORES_OUTPUT_FILE) body"
      using cdp None loop ev
      by (cases s) (simp_all add: mc_try_def loop_event_intros del: loop_event.simps)
    then show ?thesis using pre by blast
  qed
qed

lemma vg_try_shape:
  "\<exists>pre body. fst (vg_try env fs) = pre @ body
      \<and> list_all prelude_event pre \<and> length (filter is_RandomChoice pre) = 1
      \<and> list_all (loop_event env VGCHARTZ_URL SALES_OUTPUT_FILE) body"
proof -
  obtain r tr where cdp: "cdp_commands env = (r, tr)"
    by (cases "cdp_commands env")
  have pre: "list_all prelude_event tr" "length (filter is_RandomChoice tr) = 1"
    using cdp_commands_events [of env] cdp by simp_all
  show ?thesis
  proof (cases r)
    case (Some e)
    have "fst (vg_try env fs) = (tr @ [Log ERROR (ErrorOccurred (str_exn e))]) @ []"
      using cdp Some by (simp add: vg_try_def)
    then show ?thesis
      using pre
      by (intro exI [of _ "tr @ [Log ERROR (ErrorOccurred (str_exn e))]"] exI [of _ "[]"]) simp
  next
    case None
    obtain s tr' where loop: "vg_loop env [0..<max_retries] = (s, tr')"
      by (cases "vg_loop env [0..<max_retries]")
    have ev: "list_all (loop_event env VGCHARTZ_URL SALES_OUTPUT_FILE) tr'"
      using vg_loop_events [of env "[0..<max_retries]"] loop by simp
    have "\<exists>body. fst (vg_try env fs) = tr @ body
            \<and> list_all (loop_event env VGCHARTZ_URL SALES_OUTPUT_FILE) body"
    proof (cases s)
      case (Break t)
      obtain r' tr'' fs' where after: "vg_after_loop env t fs = (r', tr'', fs')"
        by (cases "vg_after_loop env t fs")
      have ev': "list_all (loop_event env VGCHARTZ_URL SALES_OUTPUT_FILE) tr''"
        using vg_after_loop_events [of env t fs] after by simp
      show ?thesis
        using cdp None loop ev Break after ev'
        by (cases r') (simp_all add: vg_try_def loop_event_intros del: loop_event.simps)
    qed (use cdp None loop ev in \<open>simp_all add: vg_try_def loop_event_intros del: loop_event.simps\<close>)
    then show ?thesis using pre by blast
  qed
qed

lemma run_shapeI:
  assumes "tr = tr0 @ (pre @ body) @ post"
    and "list_all prelude_event tr0" and "length (filter is_RandomChoice tr0) \<le> 1"
    and "list_all prelude_event pre" and "length (filter is_RandomChoice pre) = 1"
    and "list_all (loop_event env url path) body"
    and "post = [] \<or> post = quit_driver env"
  shows "run_shape env url path tr"
proof -
  have "tr = (tr0 @ pre) @ body @ post" using assms(1) by simp
  moreover have "list_all prelude_event (tr0 @ pre)" using assms by simp
  moreover have "length (filter is_RandomChoice (tr0 @ pre)) \<le> 2" using assms by simp
  ultimately show ?thesis
    unfolding run_shape_def using assms(6,7) by blast
qed

lemma mc_run_shape:
  "run_shape env METACRITIC_URL SCORES_OUTPUT_FILE (fst (snd (scrape_metacritic_scores env fs)))"
proof -
  obtain d tr where sd: "setup_driver env = (d, tr)"
    by (cases "setup_driver env")
  have s1: "list_all prelude_event tr" and s2: "length (filter is_RandomChoice tr) = 1"
    using setup_driver_events [of env] sd by simp_all
  let ?tr0 = "[Log INFO (Scraping METACRITIC_URL)]"
  show ?thesis
  proof (cases "d = Inr True")
    case True
    obtain pre body where shape: "fst (mc_try env fs) = pre @ body"
      "list_all prelude_event pre" "length (filter is_RandomChoice pre) = 1"
      "list_all (loop_event env METACRITIC_URL SCORES_OUTPUT_FILE) body"
      using mc_try_shape [of env fs] by blast
    have "fst (snd (scrape_metacritic_scores env fs)) = ?tr0 @ (tr @ body0) @ post"
      if "body0 = fst (mc_try env fs)" and "post = quit_driver env" for body0 post
      using sd True that by (simp add: scrape_metacritic_scores_def split_def Let_def)
    then have eq: "fst (snd (scrape_metacritic_scores env fs)) = (?tr0 @ tr) @ (pre @ body) @ quit_driver env"
      using shape(1) by simp
    have "list_all prelude_event (?tr0 @ tr)" using s1 by simp
    moreover have "length (filter is_RandomChoice (?tr0 @ tr)) \<le> 1" using s2 by simp
    ultimately show ?thesis
      using run_shapeI [OF eq _ _ shape(2,3,4)] by blast
  next
    case False
    then have "fst (snd (scrape_metacritic_scores env fs)) = ?tr0 @ tr"
      using sd by (cases d) (auto simp: scrape_metacritic_scores_def)
    then have eq: "fst (snd (scrape_metacritic_scores env fs)) = ?tr0 @ tr @ [] @ []"
      by simp
    have "list_all prelude_event (?tr0 @ tr)" using s1 by simp
    moreover have "length (filter is_RandomChoice (?tr0 @ tr)) \<le> 2" using s2 by simp
    ultimately show ?thesis
      unfolding run_shape_def using eq
      by (intro exI [of _ "?tr0 @ tr"] exI [of _ "[]"]) simp
  qed
qed

lemma vg_run_shape:
  "run_shape env VGCHARTZ_URL SALES_OUTPUT_FILE (fst (snd (scrape_vgchartz_game_sales env fs)))"
proof -
  obtain d tr where sd: "setup_driver env = (d, tr)"
    by (cases "setup_driver env")
  have s1: "list_all prelude_event tr" and s2: "length (filter is_RandomChoice tr) = 1"
    using setup_driver_events [of env] sd by simp_all
  let ?tr0 = "[Log INFO (Scraping VGCHARTZ_URL)]"
  show ?thesis
  proof (cases "d = Inr True")
    case True
    obtain pre body where shape: "fst (vg_try env fs) = pre @ body"
      "list_all prelude_event pre" "length (filter is_RandomChoice pre) = 1"
      "list_all (loop_event env VGCHARTZ_URL SALES_OUTPUT_FILE) body"
      using vg_try_shape [of env fs] by blast
    have "fst (snd (scrape_vgchartz_game_sales env fs)) = ?tr0 @ (tr @ body0) @ post"
      if "body0 = fst (vg_try env fs)" and "post = quit_driver env" for body0 post
      using sd True that by (simp add: scrape_vgchartz_game_sales_def split_def Let_def)
    then have eq: "fst (snd (scrape_vgchartz_game_sales env fs)) = (?tr0 @ tr) @ (pre @ body) @ quit_driver env"
      using shape(1) by simp
    have "list_all prelude_event (?tr0 @ tr)" using s1 by simp
    moreover have "length (filter is_RandomChoice (?tr0 @ tr)) \<le> 1" using s2 by simp
    ultimately show ?thesis
      using run_shapeI [OF eq _ _ shape(2,3,4)] by blast
  next
    case False
    then have "fst (snd (scrape_vgchartz_game_sales env fs)) = ?tr0 @ tr"
      using sd by (cases d) (auto simp: scrape_vgchartz_game_sales_def)
    then have eq: "fst (snd (scrape_vgchartz_game_sales env fs)) = ?tr0 @ tr @ [] @ []"
      by simp
    have "list_all prelude_event (?tr0 @ tr)" using s1 by simp
    moreover have "length (filter is_RandomChoice (?tr0 @ tr)) \<le> 2" using s2 by simp
    ultimately show ?thesis
      unfolding run_shape_def using eq
      by (intro exI [of _ "?tr0 @ tr"] exI [of _ "[]"]) simp
  qed
qed

lemma prelude_event_facts:
  assumes "prelude_event e"
  shows "\<not> is_Get e" and "e \<noteq> Quit" and "sleep_within e" and "\<not> is_WriteCsv e"
  using assms by (cases e; simp)+

lemma loop_event_facts:
  assumes "loop_event env url path e"
  shows "\<not> is_identity_event e" and "e \<noteq> Quit" and "\<not> is_RandomChoice e"
  using assms by (cases e; simp)+

lemma quit_driver_facts:
  assumes "e \<in> set (quit_driver env)"
  shows "\<not> is_identity_event e" and "\<not> is_RandomChoice e" and "sleep_within e" and "\<not> is_Get e"
    and "\<not> is_WriteCsv e"
  using assms by (auto simp: quit_driver_def split: option.splits)

lemma uniform_bounds:
  assumes "0 \<le> u" and "u < 1" and "a \<le> b"
  shows "a \<le> uniform a b u" and "uniform a b u \<le> b"
proof -
  have "0 \<le> (b - a) * u"
    using assms by simp
  then show "a \<le> uniform a b u"
    by (simp add: uniform_def)
  have "(b - a) * u \<le> (b - a) * 1"
    using assms by (intro mult_left_mono) simp_all
  then show "uniform a b u \<le> b"
    by (simp add: uniform_def)
qed

lemma loop_event_sleep_within:
  assumes "unit_draws env" and "loop_event env url path e"
  shows "sleep_within e"
proof (cases e)
  case (Sleep site d)
  have draws: "0 \<le> random_before env i" "random_before env i < 1"
    "0 \<le> random_after_get env i" "random_after_get env i < 1"
    "0 \<le> random_retry env i" "random_retry env i < 1" for i
    using assms(1) by (simp_all add: unit_draws_def)
  show ?thesis
  proof (cases site)
    case BeforeAttempt
    then obtain i where "d = uniform 2 5 (random_before env i)"
      using assms(2) Sleep by auto
    then show ?thesis
      using uniform_bounds [OF draws(1,2), of 2 5 i] Sleep BeforeAttempt by simp
  next
    case AfterGet
    then obtain i where "d = uniform 3 7 (random_after_get env i)"
      using assms(2) Sleep by auto
    then show ?thesis
      using uniform_bounds [OF draws(3,4), of 3 7 i] Sleep AfterGet by simp
  next
    case BeforeRetry
    then obtain i where "d = uniform 3 7 (random_retry env i)"
      using assms(2) Sleep by auto
    then show ?thesis
      using uniform_bounds [OF draws(5,6), of 3 7 i] Sleep BeforeRetry by simp
  next
    case BetweenRequests
    then show ?thesis using assms(2) Sleep by simp
  qed
qed simp_all

lemma run_shape_identity:
  assumes "run_shape env url path tr"
  shows "filter is_identity_event (dropWhile (\<lambda>e. \<not> is_Get e) tr) = []"
    and "length (filter is_RandomChoice tr) \<le> 2"
proof -
  obtain pre body post where tr: "tr = pre @ body @ post"
    and pre: "list_all prelude_event pre" "length (filter is_RandomChoice pre) \<le> 2"
    and body: "list_all (loop_event env url path) body"
    and post: "post = [] \<or> post = quit_driver env"
    using assms unfolding run_shape_def by blast
  have no_get: "\<not> is_Get e" if "e \<in> set pre" for e
    using pre(1) that prelude_event_facts(1) by (auto simp: list_all_iff)
  have rest: "\<not> is_identity_event e \<and> \<not> is_RandomChoice e" if "e \<in> set (body @ post)" for e
  proof (cases "e \<in> set body")
    case True
    then have "loop_event env url path e"
      using body by (auto simp: list_all_iff)
    then show ?thesis using loop_event_facts by blast
  next
    case False
    then have "e \<in> set (quit_driver env)"
      using that post by auto
    then show ?thesis using quit_driver_facts by blast
  qed
  have "dropWhile (\<lambda>e. \<not> is_Get e) tr = dropWhile (\<lambda>e. \<not> is_Get e) (body @ post)"
    using no_get by (simp add: tr dropWhile_append2)
  moreover have "set (dropWhile (\<lambda>e. \<not> is_Get e) (body @ post)) \<subseteq> set (body @ post)"
    by (meson set_dropWhileD subsetI)
  ultimately show "filter is_identity_event (dropWhile (\<lambda>e. \<not> is_Get e) tr) = []"
    using rest by (auto simp: filter_empty_conv)
  have "filter is_RandomChoice (body @ post) = []"
    using rest by (auto simp: filter_empty_conv)
  then show "length (filter is_RandomChoice tr) \<le> 2"
    using pre(2) by (simp add: tr)
qed

lemma run_shape_sleeps:
  assumes "unit_draws env" and "run_shape env url path tr"
  shows "list_all sleep_within tr"
proof -
  obtain pre body post where tr: "tr = pre @ body @ post"
    and pre: "list_all prelude_event pre"
    and body: "list_all (loop_event env url path) body"
    and post: "post = [] \<or> post = quit_driver env"
    using assms(2) unfolding run_shape_def by blast
  have "sleep_within e" if mem: "e \<in> set tr" for e
  proof -
    consider "e \<in> set pre" | "e \<in> set body" | "e \<in> set (quit_driver env)"
      using mem tr post by auto
    then show ?thesis
    proof cases
      case 1
      then show ?thesis using pre prelude_event_facts(3) by (auto simp: list_all_iff)
    next
      case 2
      then have "loop_event env url path e" using body by (auto simp: list_all_iff)
      then show ?thesis using loop_event_sleep_within [OF assms(1)] by blast
    next
      case 3
      then show ?thesis using quit_driver_facts(3) by blast
    qed
  qed
  then show ?thesis by (simp add: list_all_iff)
qed

lemma inter_attempt_delays_bounds:
  "list_all sleep_within tr \<Longrightarrow> \<forall>d \<in> set (inter_attempt_delays tr). 2 \<le> d \<and> d \<le> 7"
  by (induction tr rule: inter_attempt_delays.induct) auto

lemma unit_draws_sample: "unit_draws (sample_env present nav)"
  by (simp add: unit_draws_def sample_env_def)

lemma retry_run_trace:
  "fst (snd (scrape_metacritic_scores (sample_env True timeout_then_game) Map.empty)) =
     [Log INFO (Scraping METACRITIC_URL),
      RandomChoice (user_agents ! 0),
      StartChrome (user_agents ! 0),
      RandomChoice (user_agents ! 1),
      CdpUserAgentOverride (user_agents ! 1) ''Windows'' ''en-US,en;q=0.9'',
      CdpAddScript, CdpExtraHeaders,
      Sleep BeforeAttempt 2, Get METACRITIC_URL, Log INFO (PageLoaded 1 3), Sleep AfterGet 5,
      Log WARNING (WebDriverErrorRetry 1 ''Message: timeout''), Sleep BeforeRetry 6,
      Sleep BeforeAttempt 2, Get METACRITIC_URL, Log INFO (PageLoaded 2 3), Sleep AfterGet 5,
      Log INFO (PageTitle ''Metacritic''),
      WriteCsv SCORES_OUTPUT_FILE
        [[''Game'', ''Metascore'', ''Release Date''], [''Zelda'', ''97'', ''Mar 3, 2017'']],
      Log INFO (SavedTo SCORES_OUTPUT_FILE),
      Quit]"
proof -
  have len: "length user_agents = 4"
    by (simp add: user_agents_def)
  have a0: "mc_attempt (sample_env True timeout_then_game) 0 Map.empty =
      (Next, [Sleep BeforeAttempt 2, Get METACRITIC_URL, Log INFO (PageLoaded 1 3), Sleep AfterGet 5,
              Log WARNING (WebDriverErrorRetry 1 ''Message: timeout''), Sleep BeforeRetry 6], Map.empty)"
    by (simp add: mc_attempt_def sample_env_def on_attempt_exn_def uniform_def max_retries_def Let_def)
  have a1: "mc_attempt (sample_env True timeout_then_game) 1 Map.empty =
      (Break (), [Sleep BeforeAttempt 2, Get METACRITIC_URL, Log INFO (PageLoaded 2 3), Sleep AfterGet 5,
              Log INFO (PageTitle ''Metacritic''),
              WriteCsv SCORES_OUTPUT_FILE
                [[''Game'', ''Metascore'', ''Release Date''], [''Zelda'', ''97'', ''Mar 3, 2017'']],
              Log INFO (SavedTo SCORES_OUTPUT_FILE)],
       [SCORES_OUTPUT_FILE \<mapsto>
          [[''Game'', ''Metascore'', ''Release Date''], [''Zelda'', ''97'', ''Mar 3, 2017'']]])"
    by (simp add: mc_attempt_def sample_env_def uniform_def max_retries_def Let_def
        save_csv_def keys_def dict_to_list_def write_fault_def)
  have loop: "mc_loop (sample_env True timeout_then_game) [0, 1, 2] Map.empty =
      (Break (), fst (snd (mc_attempt (sample_env True timeout_then_game) 0 Map.empty))
                 @ fst (snd (mc_attempt (sample_env True timeout_then_game) 1 Map.empty)),
       snd (snd (mc_attempt (sample_env True timeout_then_game) 1 Map.empty)))"
    by (simp add: a0 a1 [unfolded One_nat_def])
  have cdp: "cdp_commands (sample_env True timeout_then_game) =
      (None, [RandomChoice (user_agents ! 1),
              CdpUserAgentOverride (user_agents ! 1) ''Windows'' ''en-US,en;q=0.9'',
              CdpAddScript, CdpExtraHeaders])"
    by (simp add: cdp_commands_def sample_env_def get_random_user_agent_def len Let_def)
  have sd: "setup_driver (sample_env True timeout_then_game) =
      (Inr True, [RandomChoice (user_agents ! 0), StartChrome (user_agents ! 0)])"
    by (simp add: setup_driver_def sample_env_def get_random_user_agent_def len Let_def)
  have q: "quit_driver (sample_env True timeout_then_game) = [Quit]"
    by (simp add: quit_driver_def sample_env_def)
  show ?thesis
    by (simp add: scrape_metacritic_scores_def mc_try_def attempts_list loop cdp sd q a0
        a1 [unfolded One_nat_def])
qed

theorem identity_not_rechosen_counterexample:
  "navigation_attempts (fst (snd (scrape_metacritic_scores (sample_env True timeout_then_game) Map.empty))) = 2
   \<and> \<not> rechosen True (fst (snd (scrape_metacritic_scores (sample_env True timeout_then_game) Map.empty)))"
  by (simp add: retry_run_trace navigation_attempts_def)

text \<open>
  C1, amended. In both selenium scrapers the identity provider
  (\<^verbatim>\<open>get_random_user_agent\<close>) runs at most twice per run, in \<^verbatim>\<open>setup_driver\<close> and
  for the CDP override, both before the retry loop: from the first \<^verbatim>\<open>driver.get\<close> on
  the trace holds no draw of a user agent, no browser start and no user-agent override, so
  every attempt of a run presents the identity installed before the loop.
\<close>

theorem identity_chosen_before_loop:
  "filter is_identity_event
     (dropWhile (\<lambda>e. \<not> is_Get e) (fst (snd (scrape_metacritic_scores env fs)))) = []
   \<and> length (filter is_RandomChoice (fst (snd (scrape_metacritic_scores env fs)))) \<le> 2
   \<and> filter is_identity_event
     (dropWhile (\<lambda>e. \<not> is_Get e) (fst (snd (scrape_vgchartz_game_sales env' fs')))) = []
   \<and> length (filter is_RandomChoice (fst (snd (scrape_vgchartz_game_sales env' fs')))) \<le> 2"
  using run_shape_identity [OF mc_run_shape [of env fs]]
    run_shape_identity [OF vg_run_shape [of env' fs']]
  by blast

theorem identity_chosen_before_loop_witness:
  "filter is_identity_event
     (dropWhile (\<lambda>e. \<not> is_Get e)
        (fst (snd (scrape_metacritic_scores (sample_env True timeout_then_game) Map.empty)))) = []
   \<and> length (filter is_RandomChoice
        (fst (snd (scrape_metacritic_scores (sample_env True timeout_then_game) Map.empty)))) = 2"
  using identity_chosen_before_loop [of "sample_env True timeout_then_game" Map.empty]
  by (simp add: retry_run_trace)

theorem retry_delay_counterexample:
  "unit_draws (sample_env True timeout_then_game)
   \<and> inter_attempt_delays
       (fst (snd (scrape_metacritic_scores (sample_env True timeout_then_game) Map.empty))) = [2, 6, 2]
   \<and> \<not> list_all within_jitter [2, 6, 2]"
  by (simp add: retry_run_trace unit_draws_sample within_jitter_def)

text \<open>
  C8, amended. When every value of \<^verbatim>\<open>random()\<close> lies in \<open>[0, 1)\<close>, every sleep of a
  run of either selenium scraper lies within the bounds of its call: the delay before each
  attempt within \<open>[2, 5]\<close> seconds, the delay of the retry handler after a WebDriver error
  and the pause after \<^verbatim>\<open>driver.get\<close> within \<open>[3, 7]\<close>. So every delay slept between
  the start of the run, or a failed attempt, and the next navigation lies within \<open>[2, 7]\<close>.
\<close>

theorem sleeps_within_bounds:
  assumes "unit_draws env" and "unit_draws env'"
  shows "list_all sleep_within (fst (snd (scrape_metacritic_scores env fs)))
       \<and> (\<forall>d \<in> set (inter_attempt_delays (fst (snd (scrape_metacritic_scores env fs)))). 2 \<le> d \<and> d \<le> 7)
       \<and> list_all sleep_within (fst (snd (scrape_vgchartz_game_sales env' fs')))
       \<and> (\<forall>d \<in> set (inter_attempt_delays (fst (snd (scrape_vgchartz_game_sales env' fs')))). 2 \<le> d \<and> d \<le> 7)"
  using run_shape_sleeps [OF assms(1) mc_run_shape [of env fs]]
    run_shape_sleeps [OF assms(2) vg_run_shape [of env' fs']]
    inter_attempt_delays_bounds
  by blast

theorem sleeps_within_bounds_witness:
  "unit_draws (sample_env True timeout_then_game)
   \<and> unit_draws (sample_env True always_timeout :: vg_page selenium_env)
   \<and> list_all sleep_within
       (fst (snd (scrape_metacritic_scores (sample_env True timeout_then_game) Map.empty)))
   \<and> list_all (\<lambda>d. 2 \<le> d \<and> d \<le> 7)
       (inter_attempt_delays
          (fst (snd (scrape_metacritic_scores (sample_env True timeout_then_game) Map.empty))))"
proof -
  have u1: "unit_draws (sample_env True timeout_then_game)"
    by (rule unit_draws_sample)
  have u2: "unit_draws (sample_env True always_timeout :: vg_page selenium_env)"
    by (rule unit_draws_sample)
  show ?thesis
    using u1 u2 sleeps_within_bounds [OF u1 u2, of Map.empty Map.empty]
    by (simp add: list_all_iff)
qed

lemmas branch_cong =
  option.case_cong prod.case_cong nav.case_cong sum.case_cong chart_probe.case_cong
  list.case_cong signal.case_cong if_cong let_cong

lemma on_attempt_exn_quit:
  "on_attempt_exn (env\<lparr>quit_error := q\<rparr>) attempt e = on_attempt_exn env attempt e"
  by (simp add: on_attempt_exn_def
      cong: branch_cong)

lemma cdp_commands_quit: "cdp_commands (env\<lparr>quit_error := q\<rparr>) = cdp_commands env"
  by (simp add: cdp_commands_def
      cong: branch_cong)

lemma mc_attempt_quit: "mc_attempt (env\<lparr>quit_error := q\<rparr>) attempt fs = mc_attempt env attempt fs"
  by (simp add: mc_attempt_def on_attempt_exn_quit
      cong: branch_cong)

lemma mc_loop_quit: "mc_loop (env\<lparr>quit_error := q\<rparr>) attempts fs = mc_loop env attempts fs"
  by (induction attempts arbitrary: fs) (simp_all add: mc_attempt_quit
      cong: branch_cong)

lemma mc_try_quit: "mc_try (env\<lparr>quit_error := q\<rparr>) fs = mc_try env fs"
  by (simp add: mc_try_def cdp_commands_quit mc_loop_quit
      cong: branch_cong)

lemma vg_attempt_quit: "vg_attempt (env\<lparr>quit_error := q\<rparr>) attempt = vg_attempt env attempt"
  by (simp add: vg_attempt_def on_attempt_exn_quit
      cong: branch_cong)

lemma vg_loop_quit: "vg_loop (env\<lparr>quit_error := q\<rparr>) attempts = vg_loop env attempts"
  by (induction attempts) (simp_all add: vg_attempt_quit
      cong: branch_cong)

lemma vg_after_loop_quit: "vg_after_loop (env\<lparr>quit_error := q\<rparr>) t fs = vg_after_loop env t fs"
  by (simp add: vg_after_loop_def
      cong: branch_cong)

lemma vg_try_quit: "vg_try (env\<lparr>quit_error := q\<rparr>) fs = vg_try env fs"
  by (simp add: vg_try_def cdp_commands_quit vg_loop_quit vg_after_loop_quit
      cong: branch_cong)

lemma setup_driver_started:
  assumes "chromedriver_exists env" and "chrome_error env = None"
  shows "setup_driver (env\<lparr>quit_error := q\<rparr>) =
           (Inr True, [RandomChoice (user_agents ! (choice_setup env mod length user_agents)),
                       StartChrome (user_agents ! (choice_setup env mod length user_agents))])"
  using assms by (simp add: setup_driver_def get_random_user_agent_def Let_def)

lemma no_quit_in_try:
  "Quit \<notin> set (fst (mc_try env fs))" "Quit \<notin> set (fst (vg_try env' fs))"
proof -
  obtain pre body where "fst (mc_try env fs) = pre @ body" "list_all prelude_event pre"
    "list_all (loop_event env METACRITIC_URL SCORES_OUTPUT_FILE) body"
    using mc_try_shape [of env fs] by blast
  then show "Quit \<notin> set (fst (mc_try env fs))"
    using prelude_event_facts(2) loop_event_facts(2) by (auto simp: list_all_iff)
  obtain pre' body' where "fst (vg_try env' fs) = pre' @ body'" "list_all prelude_event pre'"
    "list_all (loop_event env' VGCHARTZ_URL SALES_OUTPUT_FILE) body'"
    using vg_try_shape [of env' fs] by blast
  then show "Quit \<notin> set (fst (vg_try env' fs))"
    using prelude_event_facts(2) loop_event_facts(2) by (auto simp: list_all_iff)
qed

text \<open>
  C5. In every run of a selenium scraper in which the browser was started,
  \<^verbatim>\<open>driver.quit()\<close> is called exactly once, as the last driver action, whatever
  happened in the \<^verbatim>\<open>try\<close> block (a written file, an early return, exhausted retries
  or any other exception), and the function returns normally. An exception of
  \<^verbatim>\<open>driver.quit()\<close> adds one warning after it and changes nothing else: the trace
  before the call and the file store are the same for every answer of \<^verbatim>\<open>quit\<close>.
\<close>

theorem driver_always_quit:
  assumes "chromedriver_exists env" and "chrome_error env = None"
    and "chromedriver_exists env'" and "chrome_error env' = None"
  shows "(\<exists>body fs1. Quit \<notin> set body
            \<and> StartChrome (user_agents ! (choice_setup env mod length user_agents)) \<in> set body
            \<and> (\<forall>q. scrape_metacritic_scores (env\<lparr>quit_error := q\<rparr>) fs =
                  (Returned, body @ Quit # closing_log q, fs1)))
       \<and> (\<exists>body fs1. Quit \<notin> set body
            \<and> StartChrome (user_agents ! (choice_setup env' mod length user_agents)) \<in> set body
            \<and> (\<forall>q. scrape_vgchartz_game_sales (env'\<lparr>quit_error := q\<rparr>) fs' =
                  (Returned, body @ Quit # closing_log q, fs1)))"
proof -
  have quit: "quit_driver (e\<lparr>quit_error := q\<rparr>) = Quit # closing_log q"
    for e :: "'p selenium_env" and q
    by (simp add: quit_driver_def closing_log_def split: option.splits)
  let ?ua = "user_agents ! (choice_setup env mod length user_agents)"
  let ?body = "[Log INFO (Scraping METACRITIC_URL), RandomChoice ?ua, StartChrome ?ua]
                 @ fst (mc_try env fs)"
  have "Quit \<notin> set ?body"
    using no_quit_in_try(1) [of env fs] by simp
  moreover have "StartChrome ?ua \<in> set ?body"
    by simp
  moreover have "scrape_metacritic_scores (env\<lparr>quit_error := q\<rparr>) fs =
      (Returned, ?body @ Quit # closing_log q, snd (mc_try env fs))" for q
    using setup_driver_started [OF assms(1,2), of q]
    by (simp add: scrape_metacritic_scores_def mc_try_quit quit split_def Let_def)
  ultimately have mc: "\<exists>body fs1. Quit \<notin> set body \<and> StartChrome ?ua \<in> set body
            \<and> (\<forall>q. scrape_metacritic_scores (env\<lparr>quit_error := q\<rparr>) fs =
                  (Returned, body @ Quit # closing_log q, fs1))"
    by blast
  let ?ua' = "user_agents ! (choice_setup env' mod length user_agents)"
  let ?body' = "[Log INFO (Scraping VGCHARTZ_URL), RandomChoice ?ua', StartChrome ?ua']
                 @ fst (vg_try env' fs')"
  have "Quit \<notin> set ?body'"
    using no_quit_in_try(2) [of env' fs'] by simp
  moreover have "StartChrome ?ua' \<in> set ?body'"
    by simp
  moreover have "scrape_vgchartz_game_sales (env'\<lparr>quit_error := q\<rparr>) fs' =
      (Returned, ?body' @ Quit # closing_log q, snd (vg_try env' fs'))" for q
    using setup_driver_started [OF assms(3,4), of q]
    by (simp add: scrape_vgchartz_game_sales_def vg_try_quit quit split_def Let_def)
  ultimately have vg: "\<exists>body fs1. Quit \<notin> set body \<and> StartChrome ?ua' \<in> set body
            \<and> (\<forall>q. scrape_vgchartz_game_sales (env'\<lparr>quit_error := q\<rparr>) fs' =
                  (Returned, body @ Quit # closing_log q, fs1))"
    by blast
  from mc vg show ?thesis by blast
qed

theorem driver_always_quit_witness:
  "chromedriver_exists (sample_env True timeout_then_game)
   \<and> chrome_error (sample_env True timeout_then_game) = None
   \<and> chromedriver_exists (sample_env True always_timeout :: vg_page selenium_env)
   \<and> chrome_error (sample_env True always_timeout :: vg_page selenium_env) = None
   \<and> fst (scrape_metacritic_scores
            ((sample_env True timeout_then_game)\<lparr>quit_error := Some (OtherException ''gone'')\<rparr>)
            Map.empty) = Returned
   \<and> last (fst (snd (scrape_metacritic_scores
            ((sample_env True timeout_then_game)\<lparr>quit_error := Some (OtherException ''gone'')\<rparr>)
            Map.empty))) = Log WARNING (ErrorClosingDriver ''gone'')
   \<and> fst (scrape_vgchartz_game_sales
            ((sample_env True always_timeout)\<lparr>quit_error := None\<rparr>) Map.empty) = Returned
   \<and> last (fst (snd (scrape_vgchartz_game_sales
            ((sample_env True always_timeout)\<lparr>quit_error := None\<rparr>) Map.empty))) = Quit"
proof -
  have a: "chromedriver_exists (sample_env True timeout_then_game)"
    and b: "chrome_error (sample_env True timeout_then_game) = None"
    and c: "chromedriver_exists (sample_env True always_timeout :: vg_page selenium_env)"
    and d: "chrome_error (sample_env True always_timeout :: vg_page selenium_env) = None"
    by (simp_all add: sample_env_def)
  obtain body fs1 body' fs1' where
    mc: "\<And>q. scrape_metacritic_scores ((sample_env True timeout_then_game)\<lparr>quit_error := q\<rparr>) Map.empty =
                  (Returned, body @ Quit # closing_log q, fs1)"
    and vg: "\<And>q. scrape_vgchartz_game_sales ((sample_env True always_timeout)\<lparr>quit_error := q\<rparr>) Map.empty =
                  (Returned, body' @ Quit # closing_log q, fs1')"
    using driver_always_quit [OF a b c d, of Map.empty Map.empty] by blast
  show ?thesis
    using a b c d by (simp add: mc vg closing_log_def)
qed

lemma is_Timeout_is_WebDriver: "is_TimeoutException e \<Longrightarrow> is_WebDriverException e"
  by (cases e) auto












lemma on_attempt_exn_cases:
  "is_WebDriverException e \<Longrightarrow> attempt \<noteq> 2 \<Longrightarrow>
     on_attempt_exn env attempt e =
       (Next, [Log WARNING (WebDriverErrorRetry (attempt + 1) (str_exn e)),
               Sleep BeforeRetry (uniform 3 7 (random_retry env attempt))])"
  "on_attempt_exn env 2 e = (Raise e, [])"
  by (simp_all add: on_attempt_exn_def max_retries_def)

text \<open>
  A trace that is quiet: no write, no error line and no line that reports the records as
  saved.
\<close>

lemma quiet_append:
  "writes (xs @ ys) = [] \<longleftrightarrow> writes xs = [] \<and> writes ys = []"
  "list_ex is_error_log (xs @ ys) \<longleftrightarrow> list_ex is_error_log xs \<or> list_ex is_error_log ys"
  "saved path (xs @ ys) \<longleftrightarrow> saved path xs \<or> saved path ys"
  by (auto simp: writes_def saved_def list_ex_iff)

lemma quiet_warnings:
  "writes (map element_warning gs) = []"
  "\<not> list_ex is_error_log (map element_warning gs)"
  "\<not> saved path (map element_warning gs)"
  "writes (map row_warning rs) = []"
  "\<not> list_ex is_error_log (map row_warning rs)"
  "\<not> saved path (map row_warning rs)"
  "writes (map skip_warning rows) = []"
  "\<not> saved path (map skip_warning rows)"
proof -
  have e: "element_warning g = Log WARNING (ErrorProcessingGame (case g of BrokenElement x \<Rightarrow> str_exn x | _ \<Rightarrow> []))"
    for g by (cases g) auto
  have r: "\<not> is_WriteCsv (row_warning x)" "\<not> is_error_log (row_warning x)"
    "Log INFO (SavedTo path) \<noteq> row_warning x" for x
    by (cases x; simp add: row_warning_def)+
  show "writes (map element_warning gs) = []"
    by (simp add: writes_def filter_empty_conv e)
  show "\<not> list_ex is_error_log (map element_warning gs)"
    by (simp add: list_ex_iff e)
  show "\<not> saved path (map element_warning gs)"
    by (auto simp: saved_def e)
  show "writes (map row_warning rs) = []"
    by (simp add: writes_def filter_empty_conv r)
  show "\<not> list_ex is_error_log (map row_warning rs)"
    by (simp add: list_ex_iff r)
  show "\<not> saved path (map row_warning rs)"
    using r(3) by (auto simp: saved_def)
  show "writes (map skip_warning rows) = []"
    by (simp add: writes_def filter_empty_conv skip_warning_def)
  show "\<not> saved path (map skip_warning rows)"
    by (auto simp: saved_def skip_warning_def)
qed

lemma mc_attempt_retried:
  assumes "mc_retried (navigation env attempt)" and "attempt \<noteq> 2"
  shows "\<exists>tr. mc_attempt env attempt fs = (Next, tr, fs)
           \<and> navigation_attempts tr = 1 \<and> writes tr = []
           \<and> \<not> list_ex is_error_log tr \<and> \<not> saved path tr"
  using assms
  by (cases "navigation env attempt")
     (simp_all add: mc_attempt_def on_attempt_exn_cases(1) Let_def navigation_attempts_def
        writes_def saved_def max_retries_def)



lemma prelude_writes: "list_all prelude_event tr \<Longrightarrow> writes tr = []"
  using prelude_event_facts(4) by (auto simp: writes_def list_all_iff filter_empty_conv)

lemma writes_append: "writes (xs @ ys) = writes xs @ writes ys"
  by (simp add: writes_def)



lemma quit_driver_inert:
  "navigation_attempts (quit_driver env) = 0" "writes (quit_driver env) = []"
  "\<not> list_ex is_error_log (quit_driver env)" "\<not> saved path (quit_driver env)"
  by (simp_all add: quit_driver_def navigation_attempts_def writes_def saved_def split: option.splits)











lemma dict_to_list_own:
  assumes "distinct (keys r)"
  shows "dict_to_list (keys r) r = Inr (map snd r)"
proof -
  have "map_of r (fst kv) = Some (snd kv)" if "kv \<in> set r" for kv
    using assms that by (cases kv) (simp add: keys_def)
  then have "map (\<lambda>k. case map_of r k of Some v \<Rightarrow> v | None \<Rightarrow> []) (map fst r) = map snd r"
    by (simp add: map_idI)
  moreover have "filter (\<lambda>k. k \<notin> set (keys r)) (keys r) = []"
    by (simp add: filter_empty_conv)
  ultimately show ?thesis
    by (simp add: dict_to_list_def keys_def)
qed

lemma writerows_uniform:
  assumes "list_all (\<lambda>r. keys r = fieldnames) data" and "distinct fieldnames"
  shows "writerows fieldnames data = (map (map snd) data, None)"
  using assms
proof (induction data)
  case Nil
  show ?case by simp
next
  case (Cons r data)
  then have "dict_to_list fieldnames r = Inr (map snd r)"
    using dict_to_list_own [of r] by auto
  then show ?case using Cons by simp
qed

lemma csv_of_uniform:
  assumes "data \<noteq> []" and "list_all (\<lambda>r. keys r = fieldnames) data"
  shows "csv_of data = fieldnames # map (map snd) data"
  using assms by (cases data) (simp_all add: csv_of_def)

lemma save_csv_uniform:
  assumes "data \<noteq> []" and "list_all (\<lambda>r. keys r = fieldnames) data" and "distinct fieldnames"
  shows "save_csv path io data fs =
     (case io of
        None \<Rightarrow> (None, [WriteCsv path (csv_of data), Log INFO (SavedTo path)], fs(path \<mapsto> csv_of data))
      | Some (OpenRaises m) \<Rightarrow> (Some (OtherException m), [], fs)
      | Some (WriteRaises n m) \<Rightarrow>
          if n \<le> length data
          then (Some (OtherException m), [WriteCsv path (take n (csv_of data))],
                fs(path \<mapsto> take n (csv_of data)))
          else (None, [WriteCsv path (csv_of data), Log INFO (SavedTo path)],
                fs(path \<mapsto> csv_of data)))"
proof -
  obtain first rest where d: "data = first # rest"
    using assms(1) by (cases data) auto
  then have k: "keys first = fieldnames"
    using assms(2) by simp
  have w: "writerows (keys first) data = (map (map snd) data, None)"
    using writerows_uniform [OF assms(2,3)] k by simp
  have c: "csv_of data = keys first # map (map snd) data"
    using d by (simp add: csv_of_def)
  note w' = w [unfolded d] and c' = c [unfolded d]
  show ?thesis
    unfolding d
  proof (cases io)
    case None
    then show "save_csv path io (first # rest) fs =
        (case io of
           None \<Rightarrow> (None, [WriteCsv path (csv_of (first # rest)), Log INFO (SavedTo path)],
                    fs(path \<mapsto> csv_of (first # rest)))
         | Some (OpenRaises m) \<Rightarrow> (Some (OtherException m), [], fs)
         | Some (WriteRaises n m) \<Rightarrow>
             if n \<le> length (first # rest)
             then (Some (OtherException m), [WriteCsv path (take n (csv_of (first # rest)))],
                   fs(path \<mapsto> take n (csv_of (first # rest))))
             else (None, [WriteCsv path (csv_of (first # rest)), Log INFO (SavedTo path)],
                   fs(path \<mapsto> csv_of (first # rest))))"
      by (simp add: save_csv_def w' c' write_fault_def Let_def del: writerows.simps)
  next
    case (Some fault)
    then show "save_csv path io (first # rest) fs =
        (case io of
           None \<Rightarrow> (None, [WriteCsv path (csv_of (first # rest)), Log INFO (SavedTo path)],
                    fs(path \<mapsto> csv_of (first # rest)))
         | Some (OpenRaises m) \<Rightarrow> (Some (OtherException m), [], fs)
         | Some (WriteRaises n m) \<Rightarrow>
             if n \<le> length (first # rest)
             then (Some (OtherException m), [WriteCsv path (take n (csv_of (first # rest)))],
                   fs(path \<mapsto> take n (csv_of (first # rest))))
             else (None, [WriteCsv path (csv_of (first # rest)), Log INFO (SavedTo path)],
                   fs(path \<mapsto> csv_of (first # rest))))"
      by (cases fault)
         (simp_all add: save_csv_def w' c' write_fault_def less_Suc_eq_le Let_def
            del: writerows.simps)
  qed
qed

lemma save_csv_effect:
  assumes "data \<noteq> []" and "list_all (\<lambda>r. keys r = fieldnames) data" and "distinct fieldnames"
  shows "\<exists>r tr fs'. save_csv path io data fs = (r, tr, fs')
           \<and> save_effect path io data fs tr fs'
           \<and> (case r of None \<Rightarrow> True | Some e \<Rightarrow> \<not> is_WebDriverException e)"
proof -
  have len: "length (csv_of data) = Suc (length data)"
    by (simp add: csv_of_def)
  note sv = save_csv_uniform [OF assms, of path io fs]
  show ?thesis
  proof (cases io)
    case None
    then show ?thesis
      using sv assms(1)
      by (simp add: save_effect_def opens_def wrote_def written_file_def write_completes_def
          saved_def writes_def)
  next
    case (Some fault)
    show ?thesis
    proof (cases fault)
      case (OpenRaises m)
      then show ?thesis
        using sv Some
        by (simp add: save_effect_def opens_def untouched_def saved_def writes_def)
    next
      case (WriteRaises n m)
      show ?thesis
      proof (cases "n \<le> length data")
        case True
        then show ?thesis
          using sv Some WriteRaises assms(1)
          by (simp add: save_effect_def opens_def wrote_def written_file_def write_completes_def
              saved_def writes_def)
      next
        case False
        then have "take n (csv_of data) = csv_of data"
          using len by simp
        then show ?thesis
          using sv Some WriteRaises assms(1) False
          by (simp add: save_effect_def opens_def wrote_def written_file_def write_completes_def
              saved_def writes_def)
      qed
    qed
  qed
qed

lemma save_effect_frame:
  assumes "inert path pre" and "inert path post" and "save_effect path io data fs tr fs'"
  shows "save_effect path io data fs (pre @ tr @ post) fs'"
  using assms
  by (auto simp: save_effect_def inert_def untouched_def wrote_def writes_append quiet_append
      split: if_splits)

lemma inert_append: "inert path xs \<Longrightarrow> inert path ys \<Longrightarrow> inert path (xs @ ys)"
  by (simp add: inert_def quiet_append)

lemma inert_warnings:
  "inert path (map skip_warning rows)"
  "inert path (map element_warning gs)"
  "inert path (map row_warning rs)"
  by (simp_all add: inert_def quiet_warnings)

lemma inert_lines:
  "inert path []"
  "m \<noteq> SavedTo path \<Longrightarrow> inert path [Log l m]"
  "inert path [Log ERROR m]"
  "inert path [Log WARNING m]"
  by (simp_all add: inert_def writes_def saved_def)

lemma save_effect_none:
  assumes "inert path tr"
  shows "save_effect path io [] fs tr fs"
  using assms by (simp add: save_effect_def inert_def untouched_def)

lemma save_effect_fresh:
  assumes "save_effect path io data fs tr fs'"
    and "list_all (\<lambda>r. keys r = fieldnames) data"
    and "fs path = None"
  shows "case fs' path of
           None \<Rightarrow> True
         | Some file \<Rightarrow>
             data \<noteq> []
             \<and> file = take (length file) (fieldnames # map (map snd) data)
             \<and> (saved path tr \<longrightarrow> file = fieldnames # map (map snd) data)"
proof (cases "data = [] \<or> \<not> opens io")
  case True
  then have "fs' = fs"
    using assms(1) by (auto simp: save_effect_def untouched_def)
  then show ?thesis
    using assms(3) by simp
next
  case False
  then have data: "data \<noteq> []" and w: "fs' path = Some (written_file io data)"
    and s: "saved path tr = write_completes io data"
    using assms(1) by (auto simp: save_effect_def wrote_def)
  let ?full = "fieldnames # map (map snd) data"
  have full: "csv_of data = ?full"
    using csv_of_uniform [OF data assms(2)] .
  have cut: "take (length (take n ?full)) ?full = take n ?full" for n
    by (simp add: min_def)
  have a: "written_file io data = take (length (written_file io data)) ?full"
    using cut by (simp add: written_file_def full split: option.splits io_fault.splits)
  have b: "write_completes io data \<longrightarrow> written_file io data = ?full"
    by (simp add: written_file_def write_completes_def full split: option.splits io_fault.splits)
  show ?thesis
    using data a b by (simp add: w s)
qed

lemma record_keys:
  "keys (console_record cols) = CONSOLE_FIELDS"
  "is_good_element g \<Longrightarrow> keys (element_record g) = METACRITIC_FIELDS"
  "distinct CONSOLE_FIELDS" "distinct METACRITIC_FIELDS"
proof -
  show "keys (console_record cols) = CONSOLE_FIELDS"
    by (simp add: keys_def console_record_def CONSOLE_FIELDS_def)
  show "is_good_element g \<Longrightarrow> keys (element_record g) = METACRITIC_FIELDS"
    by (cases g) (simp_all add: keys_def METACRITIC_FIELDS_def)
  show "distinct CONSOLE_FIELDS" by (simp add: CONSOLE_FIELDS_def)
  show "distinct METACRITIC_FIELDS" by (simp add: METACRITIC_FIELDS_def)
qed

lemma accepted_keys:
  "list_all (\<lambda>r. keys r = CONSOLE_FIELDS) (console_accepted cenv)"
  "list_all (\<lambda>r. keys r = METACRITIC_FIELDS) (mc_accepted n)"
  "list_all (\<lambda>r. keys r = METACRITIC_FIELDS) (mc_run_records env)"
proof -
  have "list_all (\<lambda>r. keys r = CONSOLE_FIELDS) (map console_record rows)" for rows
    by (simp add: list_all_iff record_keys(1))
  then show "list_all (\<lambda>r. keys r = CONSOLE_FIELDS) (console_accepted cenv)"
    by (simp add: console_accepted_def split: sum.splits option.splits)
  show m: "list_all (\<lambda>r. keys r = METACRITIC_FIELDS) (mc_accepted n)" for n
    by (cases n) (simp_all add: list_all_iff record_keys(2))
  show "list_all (\<lambda>r. keys r = METACRITIC_FIELDS) (mc_run_records env)"
    using m by (simp add: mc_run_records_def)
qed

lemma console_effect:
  "save_effect CONSOLE_OUTPUT_FILE (console_io_error env) (console_accepted env) fs
     (fst (snd (scrape_vgchartz_console_sales env fs)))
     (snd (snd (scrape_vgchartz_console_sales env fs)))"
proof (cases "console_response env")
  case (Inl e)
  then show ?thesis
    by (simp add: scrape_vgchartz_console_sales_def console_accepted_def save_effect_def
        untouched_def writes_def saved_def)
next
  case (Inr table)
  show ?thesis
  proof (cases table)
    case None
    then show ?thesis
      using Inr
      by (simp add: scrape_vgchartz_console_sales_def console_accepted_def save_effect_def
          untouched_def writes_def saved_def)
  next
    case (Some trs)
    let ?data = "map console_record (filter console_accepts (drop 1 trs))"
    let ?tr1 = "[Log INFO (Scraping CONSOLE_URL), HttpGet CONSOLE_URL]
                  @ map skip_warning (filter (\<lambda>cols. \<not> console_wellformed cols) (drop 1 trs))"
    have acc: "console_accepted env = ?data"
      using Inr Some by (simp add: console_accepted_def)
    have rows: "console_rows (drop 1 trs) ([], [Log INFO (Scraping CONSOLE_URL), HttpGet CONSOLE_URL])
                  = (?data, ?tr1)"
      by (simp add: console_rows_eq)
    have "inert CONSOLE_OUTPUT_FILE [Log INFO (Scraping CONSOLE_URL), HttpGet CONSOLE_URL]"
      by (simp add: inert_def writes_def saved_def)
    then have i1: "inert CONSOLE_OUTPUT_FILE ?tr1"
      by (intro inert_append inert_warnings)
    show ?thesis
    proof (cases "?data = []")
      case True
      have "inert CONSOLE_OUTPUT_FILE (?tr1 @ [Log WARNING NoNintendoConsoleData])"
        by (intro inert_append i1 inert_lines)
      then show ?thesis
        using Inr Some rows True save_effect_none
        by (simp add: scrape_vgchartz_console_sales_def acc)
    next
      case False
      have uni: "list_all (\<lambda>r. keys r = CONSOLE_FIELDS) ?data"
        by (simp add: list_all_iff record_keys(1))
      obtain r tr2 fs' where sv:
        "save_csv CONSOLE_OUTPUT_FILE (console_io_error env) ?data fs = (r, tr2, fs')"
        "save_effect CONSOLE_OUTPUT_FILE (console_io_error env) ?data fs tr2 fs'"
        using save_csv_effect [OF False uni record_keys(3)] by blast
      from save_effect_frame [OF i1 inert_lines(1) sv(2)]
      have "save_effect CONSOLE_OUTPUT_FILE (console_io_error env) ?data fs (?tr1 @ tr2) fs'"
        by simp
      then show ?thesis
        using Inr Some rows False sv(1)
        by (cases r) (simp_all add: scrape_vgchartz_console_sales_def acc)
    qed
  qed
qed

lemma on_attempt_exn_other:
  "\<not> is_WebDriverException e \<Longrightarrow> on_attempt_exn env attempt e = (Raise e, [])"
  by (simp add: on_attempt_exn_def)

lemma mc_attempt_ends:
  assumes "\<not> mc_retried (navigation env attempt) \<or> attempt = 2"
  shows "\<exists>s tr fs'. mc_attempt env attempt fs = (s, tr, fs') \<and> s \<noteq> Next
           \<and> save_effect SCORES_OUTPUT_FILE (io_error env) (mc_accepted (navigation env attempt))
               fs tr fs'"
proof -
  let ?get = "[Sleep BeforeAttempt (uniform 2 5 (random_before env attempt)), Get METACRITIC_URL]"
  let ?wait = "?get @ [Log INFO (PageLoaded (attempt + 1) max_retries),
                       Sleep AfterGet (uniform 3 7 (random_after_get env attempt))]"
  have raise: "(on_attempt_exn env attempt e :: unit signal \<times> event list) = (Raise e, [])"
    if "\<not> is_WebDriverException e \<or> attempt = 2" for e
    using that on_attempt_exn_other [of e env attempt] on_attempt_exn_cases(2) [of env e] by auto
  have i: "inert SCORES_OUTPUT_FILE ?get" "inert SCORES_OUTPUT_FILE ?wait"
    by (simp_all add: inert_def writes_def saved_def)
  show ?thesis
  proof (cases "navigation env attempt")
    case (GetRaises e)
    then have "mc_attempt env attempt fs = (Raise e, ?get, fs)"
      using raise [of e] assms by (simp add: mc_attempt_def Let_def)
    then show ?thesis
      using GetRaises save_effect_none [OF i(1)] by simp
  next
    case (WaitRaises e)
    then have "mc_attempt env attempt fs = (Raise e, ?wait, fs)"
      using raise [of e] assms by (simp add: mc_attempt_def Let_def)
    then show ?thesis
      using WaitRaises save_effect_none [OF i(2)] by simp
  next
    case (Ready title games)
    let ?head = "attempt_head env METACRITIC_URL attempt title"
    let ?data = "map element_record (filter is_good_element games)"
    let ?tr3 = "?head @ map element_warning (filter (\<lambda>g. \<not> is_good_element g) games)"
    have ih: "inert SCORES_OUTPUT_FILE ?head"
      by (simp add: inert_def writes_def saved_def attempt_head_def)
    then have i3: "inert SCORES_OUTPUT_FILE ?tr3"
      by (intro inert_append inert_warnings)
    have games: "mc_games games ([], ?head) = (?data, ?tr3)"
      by (simp add: mc_games_eq)
    show ?thesis
    proof (cases "games = []")
      case True
      then have last: "attempt = 2"
        using assms Ready by simp
      have "inert SCORES_OUTPUT_FILE (?head @ [Log ERROR NoGameElements])"
        by (intro inert_append ih inert_lines)
      moreover have "mc_attempt env attempt fs = (Return, ?head @ [Log ERROR NoGameElements], fs)"
        using Ready True last by (simp add: mc_attempt_def Let_def attempt_head_def max_retries_def)
      ultimately show ?thesis
        using Ready True save_effect_none by simp
    next
      case ne: False
      show ?thesis
      proof (cases "?data = []")
        case True
        have "inert SCORES_OUTPUT_FILE (?tr3 @ [Log WARNING NoGameData])"
          by (intro inert_append i3 inert_lines)
        moreover have "mc_attempt env attempt fs = (Return, ?tr3 @ [Log WARNING NoGameData], fs)"
          using Ready ne True games by (simp add: mc_attempt_def Let_def attempt_head_def)
        ultimately show ?thesis
          using Ready True save_effect_none by simp
      next
        case False
        have uni: "list_all (\<lambda>r. keys r = METACRITIC_FIELDS) ?data"
          by (simp add: list_all_iff record_keys(2))
        obtain r tr4 fs' where sv:
          "save_csv SCORES_OUTPUT_FILE (io_error env) ?data fs = (r, tr4, fs')"
          "save_effect SCORES_OUTPUT_FILE (io_error env) ?data fs tr4 fs'"
          "case r of None \<Rightarrow> True | Some e \<Rightarrow> \<not> is_WebDriverException e"
          using save_csv_effect [OF False uni record_keys(4)] by blast
        from save_effect_frame [OF i3 inert_lines(1) sv(2)]
        have eff: "save_effect SCORES_OUTPUT_FILE (io_error env) ?data fs (?tr3 @ tr4) fs'"
          by simp
        have "\<exists>s. mc_attempt env attempt fs = (s, ?tr3 @ tr4, fs') \<and> s \<noteq> Next"
        proof (cases r)
          case None
          then show ?thesis
            using Ready ne False games sv(1)
            by (simp add: mc_attempt_def Let_def attempt_head_def)
        next
          case (Some e)
          then have "(on_attempt_exn env attempt e :: unit signal \<times> event list) = (Raise e, [])"
            using sv(3) raise [of e] by simp
          then show ?thesis
            using Ready ne False games sv(1) Some
            by (simp add: mc_attempt_def Let_def attempt_head_def)
        qed
        then show ?thesis
          using eff Ready by auto
      qed
    qed
  qed
qed

lemma mc_retried_accepts_nothing:
  "mc_retried n \<Longrightarrow> mc_accepted n = []"
  by (cases n) simp_all

lemma mc_loop_stop:
  assumes "mc_attempt env attempt fs = (s, tr, fs')" and "s \<noteq> Next"
  shows "mc_loop env (attempt # rest) fs = (s, tr, fs')"
  using assms by (cases s) simp_all

lemma mc_loop_next:
  assumes "mc_attempt env attempt fs = (Next, tr, fs)" and "mc_loop env rest fs = (s, tr', fs')"
  shows "mc_loop env (attempt # rest) fs = (s, tr @ tr', fs')"
  using assms by simp

lemma mc_loop_effect:
  "\<exists>s tr fs'. mc_loop env [0..<max_retries] fs = (s, tr, fs')
     \<and> save_effect SCORES_OUTPUT_FILE (io_error env)
         (mc_accepted (navigation env (mc_last_attempt env))) fs tr fs'"
proof -
  have empty: "inert SCORES_OUTPUT_FILE []"
    by (simp add: inert_def writes_def saved_def)
  have ends: "\<exists>s tr fs'. mc_loop env (attempt # rest) fs = (s, tr, fs')
        \<and> save_effect SCORES_OUTPUT_FILE (io_error env) (mc_accepted (navigation env attempt)) fs tr fs'"
    if "\<not> mc_retried (navigation env attempt) \<or> attempt = 2" for attempt rest
    using mc_attempt_ends [OF that, of fs] mc_loop_stop by blast
  have goes: "\<exists>s tr fs'. mc_loop env (attempt # rest) fs = (s, tr, fs')
        \<and> save_effect SCORES_OUTPUT_FILE (io_error env) data fs tr fs'"
    if r: "mc_retried (navigation env attempt)" and n: "attempt \<noteq> 2"
      and rest: "\<exists>s tr fs'. mc_loop env rest fs = (s, tr, fs')
        \<and> save_effect SCORES_OUTPUT_FILE (io_error env) data fs tr fs'"
    for attempt rest data
  proof -
    obtain tr0 where a: "mc_attempt env attempt fs = (Next, tr0, fs)" "writes tr0 = []"
      "\<not> saved SCORES_OUTPUT_FILE tr0"
      using mc_attempt_retried [OF r n, where fs = fs and path = SCORES_OUTPUT_FILE] by blast
    obtain s tr fs' where l: "mc_loop env rest fs = (s, tr, fs')"
      "save_effect SCORES_OUTPUT_FILE (io_error env) data fs tr fs'"
      using rest by blast
    have "inert SCORES_OUTPUT_FILE tr0"
      using a(2,3) by (simp add: inert_def)
    from save_effect_frame [OF this empty l(2)]
    have "save_effect SCORES_OUTPUT_FILE (io_error env) data fs (tr0 @ tr) fs'"
      by simp
    then show ?thesis
      using mc_loop_next [OF a(1) l(1)] by blast
  qed
  have n0: "(0::nat) \<noteq> 2" and n1: "(1::nat) \<noteq> 2"
    by simp_all
  show ?thesis
  proof (cases "mc_retried (navigation env 0)")
    case False
    then have l: "mc_last_attempt env = 0"
      by (simp add: mc_last_attempt_def)
    show ?thesis
      unfolding attempts_list l using ends [of 0 "[1, 2]"] False by blast
  next
    case r0: True
    show ?thesis
    proof (cases "mc_retried (navigation env 1)")
      case False
      then have l: "mc_last_attempt env = 1"
        using r0 by (simp add: mc_last_attempt_def)
      have "\<exists>s tr fs'. mc_loop env [1, 2] fs = (s, tr, fs')
        \<and> save_effect SCORES_OUTPUT_FILE (io_error env) (mc_accepted (navigation env 1)) fs tr fs'"
        using ends [of 1 "[2]"] False by blast
      from goes [OF r0 n0 this] show ?thesis
        unfolding attempts_list l .
    next
      case r1: True
      then have l: "mc_last_attempt env = 2"
        using r0 by (simp add: mc_last_attempt_def)
      have "\<exists>s tr fs'. mc_loop env [2] fs = (s, tr, fs')
        \<and> save_effect SCORES_OUTPUT_FILE (io_error env) (mc_accepted (navigation env 2)) fs tr fs'"
        using ends [of 2 "[]"] by blast
      from goes [OF r0 n0 goes [OF r1 n1 this]] show ?thesis
        unfolding attempts_list l .
    qed
  qed
qed

lemma cdp_commands_inert:
  "inert path (snd (cdp_commands env))"
  "fst (cdp_commands env) = None \<longleftrightarrow>
     cdp_error env 0 = None \<and> cdp_error env 1 = None \<and> cdp_error env 2 = None"
  by (auto simp: cdp_commands_def get_random_user_agent_def Let_def inert_def writes_def saved_def
      split: option.splits)

lemma setup_driver_inert:
  "inert path (snd (setup_driver env))"
  "fst (setup_driver env) = Inr True \<longleftrightarrow> chromedriver_exists env \<and> chrome_error env = None"
  by (auto simp: setup_driver_def get_random_user_agent_def Let_def inert_def writes_def saved_def
      split: option.splits)

lemma mc_try_effect:
  "save_effect SCORES_OUTPUT_FILE (io_error env)
     (if fst (cdp_commands env) = None then mc_accepted (navigation env (mc_last_attempt env)) else [])
     fs (fst (mc_try env fs)) (snd (mc_try env fs))"
proof -
  obtain c tr where cdp: "cdp_commands env = (c, tr)"
    by (cases "cdp_commands env") auto
  have itr: "inert SCORES_OUTPUT_FILE tr"
    using cdp_commands_inert(1) [of SCORES_OUTPUT_FILE env] cdp by simp
  show ?thesis
  proof (cases c)
    case (Some e)
    have "inert SCORES_OUTPUT_FILE (tr @ [Log ERROR (ErrorOccurred (str_exn e))])"
      by (intro inert_append itr inert_lines)
    then show ?thesis
      using cdp Some save_effect_none by (simp add: mc_try_def)
  next
    case None
    obtain s tr' fs' where l: "mc_loop env [0..<max_retries] fs = (s, tr', fs')"
      "save_effect SCORES_OUTPUT_FILE (io_error env)
         (mc_accepted (navigation env (mc_last_attempt env))) fs tr' fs'"
      using mc_loop_effect [of env fs] by blast
    define post where "post = (case s of Raise e \<Rightarrow> [Log ERROR (ErrorOccurred (str_exn e))] | _ \<Rightarrow> [])"
    have ipost: "inert SCORES_OUTPUT_FILE post"
      by (cases s) (simp_all add: post_def inert_def writes_def saved_def)
    have t: "mc_try env fs = (tr @ tr' @ post, fs')"
      using cdp None l(1) by (cases s) (simp_all add: mc_try_def post_def)
    show ?thesis
      using save_effect_frame [OF itr ipost l(2)] t cdp None by simp
  qed
qed

lemma metacritic_effect:
  "save_effect SCORES_OUTPUT_FILE (io_error env) (mc_run_records env) fs
     (fst (snd (scrape_metacritic_scores env fs))) (snd (snd (scrape_metacritic_scores env fs)))"
proof -
  obtain d tr where sd: "setup_driver env = (d, tr)"
    by (cases "setup_driver env") auto
  have "inert SCORES_OUTPUT_FILE tr"
    using setup_driver_inert(1) [of SCORES_OUTPUT_FILE env] sd by simp
  then have itr: "inert SCORES_OUTPUT_FILE ([Log INFO (Scraping METACRITIC_URL)] @ tr)"
    by (intro inert_append inert_lines) simp_all
  have ok: "d = Inr True \<longleftrightarrow> chromedriver_exists env \<and> chrome_error env = None"
    using setup_driver_inert(2) [of env] sd by simp
  consider e where "d = Inl e" | "d = Inr False" | "d = Inr True"
    by (cases d) auto
  then show ?thesis
  proof cases
    case 1
    then have "mc_run_records env = []"
      using ok by (auto simp: mc_run_records_def started_def)
    then show ?thesis
      using sd 1 save_effect_none [OF itr] by (simp add: scrape_metacritic_scores_def)
  next
    case 2
    then have "mc_run_records env = []"
      using ok by (auto simp: mc_run_records_def started_def)
    then show ?thesis
      using sd 2 save_effect_none [OF itr] by (simp add: scrape_metacritic_scores_def)
  next
    case 3
    then have rec: "mc_run_records env =
        (if fst (cdp_commands env) = None then mc_accepted (navigation env (mc_last_attempt env)) else [])"
      using ok cdp_commands_inert(2) [of env] by (simp add: mc_run_records_def started_def)
    obtain tr' fs' where t: "mc_try env fs = (tr', fs')"
      by (cases "mc_try env fs") auto
    have iq: "inert SCORES_OUTPUT_FILE (quit_driver env)"
      by (simp add: inert_def quit_driver_inert)
    have "save_effect SCORES_OUTPUT_FILE (io_error env) (mc_run_records env) fs tr' fs'"
      using mc_try_effect [of env fs] t rec by simp
    from save_effect_frame [OF itr iq this] show ?thesis
      using sd 3 t by (simp add: scrape_metacritic_scores_def)
  qed
qed

lemma stale_store_origin:
  "snd (snd (scrape_opencritic_scores iso_parser False opencritic_sample Map.empty)) = stale_store"
proof -
  let ?zelda = "[[(''Game'', ''Zelda''), (''OpenCritic Score'', ''96''), (''Release Date'', ''2017-03-03'')]]"
  have date: "convert_release_date iso_parser False ''2017-03-03T00:00:00.000Z'' = ''2017-03-03''"
    using strftime_digits [of 3 3 False 2017] decimal_digits(4) [of 2017]
    by (simp add: convert_release_date_def iso_parser_def replace_Z_def digit_def)
  have g: "fst (oc_game iso_parser False (zelda ''2017-03-03T00:00:00.000Z'') ([], tr)) = ?zelda" for tr
    by (simp add: oc_game_def zelda_def get_random_user_agent_def Let_def date)
  let ?tr0 = "[Log INFO ScrapingOpenCritic] @ snd (get_random_user_agent 0) @ [HttpGet OPENCRITIC_API_URL]
             @ [Log INFO (FoundGames 1)]"
  obtain data tr where r: "oc_game iso_parser False (zelda ''2017-03-03T00:00:00.000Z'') ([], ?tr0)
      = (data, tr)"
    by (cases "oc_game iso_parser False (zelda ''2017-03-03T00:00:00.000Z'') ([], ?tr0)") auto
  then have d: "data = ?zelda"
    using g [of ?tr0] by simp
  have uni: "list_all (\<lambda>r. keys r = [''Game'', ''OpenCritic Score'', ''Release Date'']) ?zelda"
    by (simp add: keys_def)
  have sv: "save_csv SCORES_OUTPUT_FILE None ?zelda Map.empty =
      (None, [WriteCsv SCORES_OUTPUT_FILE (csv_of ?zelda), Log INFO (SavedTo SCORES_OUTPUT_FILE)],
       [SCORES_OUTPUT_FILE \<mapsto> csv_of ?zelda])"
    using save_csv_uniform [OF _ uni, where path = SCORES_OUTPUT_FILE and io = None and fs = Map.empty]
    by simp
  show ?thesis
    using r d sv
    by (simp add: scrape_opencritic_scores_def opencritic_sample_def split_def Let_def
        stale_store_def csv_of_def keys_def)
qed

lemma sample_records:
  "mc_run_records (sample_env True always_timeout) = []"
  "mc_run_records (sample_env True timeout_then_game) =
     [[(''Game'', ''Zelda''), (''Metascore'', ''97''), (''Release Date'', ''Mar 3, 2017'')]]"
  "mc_run_records write_refused =
     [[(''Game'', ''Zelda''), (''Metascore'', ''97''), (''Release Date'', ''Mar 3, 2017'')]]"
  "mc_run_records write_cut =
     [[(''Game'', ''Zelda''), (''Metascore'', ''97''), (''Release Date'', ''Mar 3, 2017'')]]"
  by (simp_all add: mc_run_records_def started_def mc_last_attempt_def sample_env_def
      always_timeout_def write_refused_def write_cut_def)

text \<open>
  C4 as stated does not hold of a run that starts with a destination file, nor of a run
  whose write fails. The OpenCritic scraper and the Metacritic scraper write the same path,
  \<open>data/raw/nintendo_game_scores.csv\<close>. After a run of the OpenCritic scraper, a run of
  the Metacritic scraper whose three attempts time out accepts no record and writes nothing:
  the file exists after the run, and it is the file of the earlier run. When the run accepts
  a record and the file cannot be opened, the file after the run is again the earlier one,
  and its header is not the field order of the first accepted record. And from an empty
  store, a run that accepts a record, opens the file and fails after the header leaves a
  file that holds the header only.
\<close>

theorem stale_destination_counterexample:
  "snd (snd (scrape_opencritic_scores iso_parser False opencritic_sample Map.empty)) = stale_store
   \<and> mc_run_records (sample_env True always_timeout) = []
   \<and> writes (fst (snd (scrape_metacritic_scores (sample_env True always_timeout) stale_store))) = []
   \<and> snd (snd (scrape_metacritic_scores (sample_env True always_timeout) stale_store)) SCORES_OUTPUT_FILE
       = Some [[''Game'', ''OpenCritic Score'', ''Release Date''], [''Zelda'', ''96'', ''2017-03-03'']]
   \<and> mc_run_records write_refused
       = [[(''Game'', ''Zelda''), (''Metascore'', ''97''), (''Release Date'', ''Mar 3, 2017'')]]
   \<and> writes (fst (snd (scrape_metacritic_scores write_refused stale_store))) = []
   \<and> snd (snd (scrape_metacritic_scores write_refused stale_store)) SCORES_OUTPUT_FILE
       = Some [[''Game'', ''OpenCritic Score'', ''Release Date''], [''Zelda'', ''96'', ''2017-03-03'']]
   \<and> [''Game'', ''OpenCritic Score'', ''Release Date'']
       \<noteq> keys [(''Game'', ''Zelda''), (''Metascore'', ''97''), (''Release Date'', ''Mar 3, 2017'')]
   \<and> (Map.empty :: files) SCORES_OUTPUT_FILE = None
   \<and> mc_run_records write_cut
       = [[(''Game'', ''Zelda''), (''Metascore'', ''97''), (''Release Date'', ''Mar 3, 2017'')]]
   \<and> snd (snd (scrape_metacritic_scores write_cut Map.empty)) SCORES_OUTPUT_FILE
       = Some [[''Game'', ''Metascore'', ''Release Date'']]"
proof -
  have io: "io_error (sample_env True always_timeout :: game_element list selenium_env) = None"
    "io_error write_refused = Some (OpenRaises ''[Errno 13] Permission denied'')"
    "io_error write_cut = Some (WriteRaises 1 ''[Errno 5] Input/output error'')"
    by (simp_all add: sample_env_def write_refused_def write_cut_def)
  have a: "untouched stale_store
      (fst (snd (scrape_metacritic_scores (sample_env True always_timeout) stale_store)))
      (snd (snd (scrape_metacritic_scores (sample_env True always_timeout) stale_store)))"
    using metacritic_effect [of "sample_env True always_timeout" stale_store]
    by (simp add: save_effect_def sample_records(1))
  have b: "untouched stale_store
      (fst (snd (scrape_metacritic_scores write_refused stale_store)))
      (snd (snd (scrape_metacritic_scores write_refused stale_store)))"
    using metacritic_effect [of write_refused stale_store]
    by (simp add: save_effect_def sample_records(3) io(2) opens_def)
  have c: "wrote SCORES_OUTPUT_FILE [[''Game'', ''Metascore'', ''Release Date'']] Map.empty
      (fst (snd (scrape_metacritic_scores write_cut Map.empty)))
      (snd (snd (scrape_metacritic_scores write_cut Map.empty)))"
    using metacritic_effect [of write_cut Map.empty]
    by (simp add: save_effect_def sample_records(4) io(3) opens_def written_file_def csv_of_def
        keys_def)
  have d: "stale_store SCORES_OUTPUT_FILE
       = Some [[''Game'', ''OpenCritic Score'', ''Release Date''], [''Zelda'', ''96'', ''2017-03-03'']]"
    by (simp add: stale_store_def)
  have e: "[''Game'', ''OpenCritic Score'', ''Release Date'']
       \<noteq> keys [(''Game'', ''Zelda''), (''Metascore'', ''97''), (''Release Date'', ''Mar 3, 2017'')]"
    by (simp add: keys_def)
  show ?thesis
    using stale_store_origin sample_records(1,3,4) a b c d e
    by (simp add: untouched_def wrote_def)
qed

text \<open>
  C4, amended. For every run of the console scraper and of the Metacritic scraper, from any
  file store. The writer is not entered when the run accepts no record, and it changes
  nothing when the file cannot be opened: the run then opens no file for writing, leaves the
  store as it was (a destination file that existed before the run is still there, whatever
  it holds) and does not report the records as saved. Otherwise the run opens one file,
  the destination, once; after the run the file holds the lines written before a failure
  of the write, all lines when the write did not fail, and the store is unchanged elsewhere;
  the run reports the records as saved exactly when the write completed. The lines are the
  field order of the first accepted record followed by one line for each accepted record;
  for the Metacritic scraper the accepted records are those of the attempt that ended the
  retry loop. All accepted records of a scraper have the same field order. So when the
  destination file does not exist before the run and exists after it, the run accepted at
  least one record and the file is a prefix of those lines; when the run also reports the
  records as saved, the file is never empty or header-only, and its header is the field
  order of the first accepted record.
\<close>

theorem destination_file_shape:
  "save_effect CONSOLE_OUTPUT_FILE (console_io_error cenv) (console_accepted cenv) fs
       (fst (snd (scrape_vgchartz_console_sales cenv fs)))
       (snd (snd (scrape_vgchartz_console_sales cenv fs)))
   \<and> save_effect SCORES_OUTPUT_FILE (io_error env) (mc_run_records env) fs
       (fst (snd (scrape_metacritic_scores env fs)))
       (snd (snd (scrape_metacritic_scores env fs)))
   \<and> list_all (\<lambda>r. keys r = CONSOLE_FIELDS) (console_accepted cenv)
   \<and> list_all (\<lambda>r. keys r = METACRITIC_FIELDS) (mc_run_records env)
   \<and> (fs CONSOLE_OUTPUT_FILE = None \<longrightarrow>
        (case snd (snd (scrape_vgchartz_console_sales cenv fs)) CONSOLE_OUTPUT_FILE of
           None \<Rightarrow> True
         | Some file \<Rightarrow>
             console_accepted cenv \<noteq> []
             \<and> file = take (length file) (CONSOLE_FIELDS # map (map snd) (console_accepted cenv))
             \<and> (saved CONSOLE_OUTPUT_FILE (fst (snd (scrape_vgchartz_console_sales cenv fs))) \<longrightarrow>
                  file = CONSOLE_FIELDS # map (map snd) (console_accepted cenv))))
   \<and> (fs SCORES_OUTPUT_FILE = None \<longrightarrow>
        (case snd (snd (scrape_metacritic_scores env fs)) SCORES_OUTPUT_FILE of
           None \<Rightarrow> True
         | Some file \<Rightarrow>
             mc_run_records env \<noteq> []
             \<and> file = take (length file) (METACRITIC_FIELDS # map (map snd) (mc_run_records env))
             \<and> (saved SCORES_OUTPUT_FILE (fst (snd (scrape_metacritic_scores env fs))) \<longrightarrow>
                  file = METACRITIC_FIELDS # map (map snd) (mc_run_records env))))"
proof -
  note c = console_effect [of cenv fs]
  note m = metacritic_effect [of env fs]
  note kc = accepted_keys(1) [of cenv]
  note km = accepted_keys(3) [of env]
  have fc: "fs CONSOLE_OUTPUT_FILE = None \<longrightarrow>
        (case snd (snd (scrape_vgchartz_console_sales cenv fs)) CONSOLE_OUTPUT_FILE of
           None \<Rightarrow> True
         | Some file \<Rightarrow>
             console_accepted cenv \<noteq> []
             \<and> file = take (length file) (CONSOLE_FIELDS # map (map snd) (console_accepted cenv))
             \<and> (saved CONSOLE_OUTPUT_FILE (fst (snd (scrape_vgchartz_console_sales cenv fs))) \<longrightarrow>
                  file = CONSOLE_FIELDS # map (map snd) (console_accepted cenv)))"
    using save_effect_fresh [OF c kc] by blast
  have fm: "fs SCORES_OUTPUT_FILE = None \<longrightarrow>
        (case snd (snd (scrape_metacritic_scores env fs)) SCORES_OUTPUT_FILE of
           None \<Rightarrow> True
         | Some file \<Rightarrow>
             mc_run_records env \<noteq> []
             \<and> file = take (length file) (METACRITIC_FIELDS # map (map snd) (mc_run_records env))
             \<and> (saved SCORES_OUTPUT_FILE (fst (snd (scrape_metacritic_scores env fs))) \<longrightarrow>
                  file = METACRITIC_FIELDS # map (map snd) (mc_run_records env)))"
    using save_effect_fresh [OF m km] by blast
  from c m kc km fc fm show ?thesis by blast
qed

theorem destination_file_shape_witness:
  "(Map.empty :: files) CONSOLE_OUTPUT_FILE = None
   \<and> snd (snd (scrape_vgchartz_console_sales console_sample Map.empty)) CONSOLE_OUTPUT_FILE =
       Some [[''Console'', ''North America (M)'', ''Europe (M)'', ''Japan (M)'', ''Rest of World (M)'',
              ''Total Sales (M)''],
             [''Nintendo Switch'', ''40.1'', ''30.2'', ''25.3'', ''15.4'', ''111.0'']]
   \<and> saved CONSOLE_OUTPUT_FILE (fst (snd (scrape_vgchartz_console_sales console_sample Map.empty)))
   \<and> (Map.empty :: files) SCORES_OUTPUT_FILE = None
   \<and> snd (snd (scrape_metacritic_scores (sample_env True timeout_then_game) Map.empty)) SCORES_OUTPUT_FILE =
       Some [[''Game'', ''Metascore'', ''Release Date''], [''Zelda'', ''97'', ''Mar 3, 2017'']]
   \<and> saved SCORES_OUTPUT_FILE
       (fst (snd (scrape_metacritic_scores (sample_env True timeout_then_game) Map.empty)))
   \<and> snd (snd (scrape_metacritic_scores write_cut Map.empty)) SCORES_OUTPUT_FILE =
       Some [[''Game'', ''Metascore'', ''Release Date'']]
   \<and> \<not> saved SCORES_OUTPUT_FILE (fst (snd (scrape_metacritic_scores write_cut Map.empty)))"
proof -
  let ?env = "sample_env True timeout_then_game :: game_element list selenium_env"
  note shape = destination_file_shape
    [where cenv = console_sample and env = ?env and fs = Map.empty]
  note cut = destination_file_shape
    [where cenv = console_sample and env = write_cut and fs = Map.empty]
  have acc: "console_accepted console_sample =
      [[(''Console'', ''Nintendo Switch''), (''North America (M)'', ''40.1''), (''Europe (M)'', ''30.2''),
        (''Japan (M)'', ''25.3''), (''Rest of World (M)'', ''15.4''), (''Total Sales (M)'', ''111.0'')]]"
    by (simp add: console_accepted_def console_sample_def console_accepts_def console_wellformed_def
        NINTENDO_CONSOLES_def console_record_def playstation_row_def short_row_def)
  have io: "console_io_error console_sample = None" "io_error ?env = None"
    "io_error write_cut = Some (WriteRaises 1 ''[Errno 5] Input/output error'')"
    by (simp_all add: console_sample_def sample_env_def write_cut_def)
  have c: "snd (snd (scrape_vgchartz_console_sales console_sample Map.empty)) CONSOLE_OUTPUT_FILE =
       Some [[''Console'', ''North America (M)'', ''Europe (M)'', ''Japan (M)'', ''Rest of World (M)'',
              ''Total Sales (M)''],
             [''Nintendo Switch'', ''40.1'', ''30.2'', ''25.3'', ''15.4'', ''111.0'']]
     \<and> saved CONSOLE_OUTPUT_FILE (fst (snd (scrape_vgchartz_console_sales console_sample Map.empty)))"
    using shape
    by (simp add: save_effect_def acc io opens_def wrote_def written_file_def write_completes_def
        csv_of_def keys_def)
  have m: "snd (snd (scrape_metacritic_scores ?env Map.empty)) SCORES_OUTPUT_FILE =
       Some [[''Game'', ''Metascore'', ''Release Date''], [''Zelda'', ''97'', ''Mar 3, 2017'']]
     \<and> saved SCORES_OUTPUT_FILE (fst (snd (scrape_metacritic_scores ?env Map.empty)))"
    using shape
    by (simp add: save_effect_def sample_records(2) io opens_def wrote_def written_file_def
        write_completes_def csv_of_def keys_def)
  have w: "snd (snd (scrape_metacritic_scores write_cut Map.empty)) SCORES_OUTPUT_FILE =
       Some [[''Game'', ''Metascore'', ''Release Date'']]
     \<and> \<not> saved SCORES_OUTPUT_FILE (fst (snd (scrape_metacritic_scores write_cut Map.empty)))"
    using cut
    by (simp add: save_effect_def sample_records(4) io opens_def wrote_def written_file_def
        write_completes_def csv_of_def keys_def)
  show ?thesis
    using c m w by simp
qed

end
